theory Spec2Isabelle
  imports Main "HOL-Library.Sublist" "HOL-Library.Word"
begin

section \<open>Reconstruction of anonymized text\<close>

subsection \<open>Python's \<open>str.replace\<close>\<close>

text \<open>
  A Python \<open>str\<close> is a sequence of code points; the text functions below are
  polymorphic in the type of code points and are used at \<open>char\<close>.

  \<open>s.replace(old, new)\<close> scans \<open>s\<close> from the left. Where \<open>old\<close> matches at the
  current position, \<open>new\<close> is emitted and the scan resumes behind the match, so that
  matches do not overlap; otherwise one code point is copied. The empty pattern
  matches at every position, also behind the last code point.
\<close>

function str_replace :: "'c list \<Rightarrow> 'c list \<Rightarrow> 'c list \<Rightarrow> 'c list" where
  "str_replace [] old new = (if old = [] then new else [])"
| "str_replace (c # cs) old new =
     (if old = [] then new @ c # str_replace cs old new
      else if prefix old (c # cs)
        then new @ str_replace (drop (length old) (c # cs)) old new
      else c # str_replace cs old new)"
  by pat_completeness auto
termination
  by (relation "measure (\<lambda>(s, old, new). length s)") auto

subsection \<open>\<open>reconstruct_text\<close>\<close>

text \<open>
  \<^verbatim>\<open>
  def reconstruct_text(anonymized_text, entity_mapping):
      for placeholder, original in entity_mapping:
          anonymized_text = anonymized_text.replace(placeholder, original)
      return anonymized_text
  \<close>
  The entity mapping is an ordered sequence of (placeholder, original) pairs.
\<close>

type_synonym 'c entity_mapping = "('c list \<times> 'c list) list"

fun reconstruct_text :: "'c list \<Rightarrow> 'c entity_mapping \<Rightarrow> 'c list" where
  "reconstruct_text anonymized_text [] = anonymized_text"
| "reconstruct_text anonymized_text ((placeholder, original) # entity_mapping) =
     reconstruct_text (str_replace anonymized_text placeholder original) entity_mapping"

text \<open>
  Joining segments with a separator, as \<open>sep.join(segs)\<close> does; used to say what
  replacing all occurrences means.
\<close>

fun join :: "'c list \<Rightarrow> 'c list list \<Rightarrow> 'c list" where
  "join sep [] = []"
| "join sep [a] = a"
| "join sep (a # b # segs) = a @ sep @ join sep (b # segs)"

section \<open>Exceptions, keys and the envelope\<close>

text \<open>
  A raised exception is a value: its class and the text \<open>str(e)\<close> that the batch
  processor prints. A computation that may raise returns \<open>exn + 'a\<close>.
\<close>

datatype exn = Exn (exn_class: string) (exn_str: string)

definition bind_exn :: "exn + 'a \<Rightarrow> ('a \<Rightarrow> exn + 'b) \<Rightarrow> exn + 'b" where
  "bind_exn r f = (case r of Inl e \<Rightarrow> Inl e | Inr x \<Rightarrow> f x)"

text \<open>
  \<open>d[key]\<close> on a dictionary read from JSON: a field that is absent raises
  \<open>KeyError\<close>, whose text is the key in quotes.
\<close>

definition subscript :: "'a option \<Rightarrow> string \<Rightarrow> exn + 'a" where
  "subscript field key =
     (case field of
        None \<Rightarrow> Inl (Exn ''KeyError'' ([CHR 0x27] @ key @ [CHR 0x27]))
      | Some v \<Rightarrow> Inr v)"

text \<open>
  The keys that \<open>load_pem_private_key\<close> and \<open>load_pem_public_key\<close> return. Only an
  RSA key has the modulus \<open>n\<close> among its numbers; reading \<open>.n\<close> of the numbers of a
  key of another algorithm raises \<open>AttributeError\<close>.
\<close>

datatype private_key = RSAPrivateKey (private_n: nat) (private_d: nat) | OtherPrivateKey
datatype public_key = RSAPublicKey (public_n: nat) (public_e: nat) | OtherPublicKey

definition private_numbers_n :: "private_key \<Rightarrow> exn + nat" where
  "private_numbers_n private_key =
     (case private_key of
        RSAPrivateKey n d \<Rightarrow> Inr n
      | OtherPrivateKey \<Rightarrow> Inl (Exn ''AttributeError'' ''n''))"

definition public_numbers_n :: "public_key \<Rightarrow> exn + nat" where
  "public_numbers_n public_key =
     (case public_key of
        RSAPublicKey n e \<Rightarrow> Inr n
      | OtherPublicKey \<Rightarrow> Inl (Exn ''AttributeError'' ''n''))"

type_synonym bytes = "8 word list"

text \<open>
  The encrypted package of a record, as read from JSON: the fields
  \<open>encrypted_aes_keys\<close> (user id to Base64 text), \<open>iv\<close> and \<open>encrypted_data\<close>
  (Base64 text), each of which may be absent from the dictionary.
\<close>

record envelope =
  encrypted_aes_keys :: "(string \<rightharpoonup> string) option"
  iv :: "string option"
  encrypted_data :: "string option"

text \<open>
  The library functions that \<open>hybrid_decrypt\<close> calls are parameters of the model:
  \<open>base64.b64decode\<close>, \<open>private_key.decrypt\<close> with OAEP padding (MGF1 and SHA-256, no
  label), the AES cipher in CFB mode (construction, \<open>update\<close> and \<open>finalize\<close>),
  \<open>bytes.decode\<close> and \<open>json.loads\<close>. Each returns its value or the exception it raises.
\<close>

record crypto =
  b64decode :: "string \<Rightarrow> exn + bytes"
  rsa_oaep_decrypt :: "private_key \<Rightarrow> bytes \<Rightarrow> exn + bytes"
  aes_cfb_decrypt :: "bytes \<Rightarrow> bytes \<Rightarrow> bytes \<Rightarrow> exn + bytes"
  utf8_decode :: "bytes \<Rightarrow> exn + string"
  json_loads :: "string \<Rightarrow> exn + char entity_mapping"

subsection \<open>\<open>hybrid_decrypt\<close>\<close>

text \<open>
  \<^verbatim>\<open>
  def hybrid_decrypt(encrypted_package, private_key, user_id):
      if user_id not in encrypted_package["encrypted_aes_keys"]:
          raise ValueError(f"No encrypted AES key found for user ID: {user_id}")
      encrypted_aes_key = base64.b64decode(encrypted_package["encrypted_aes_keys"][user_id])
      aes_key = private_key.decrypt(encrypted_aes_key, padding.OAEP(...))
      iv = base64.b64decode(encrypted_package["iv"])
      encrypted_data = base64.b64decode(encrypted_package["encrypted_data"])
      cipher = Cipher(algorithms.AES(aes_key), modes.CFB(iv))
      decryptor = cipher.decryptor()
      decrypted_data = decryptor.update(encrypted_data) + decryptor.finalize()
      return json.loads(decrypted_data.decode())
  \<close>
  The steps run in the order of the source, and the first exception ends the call.
\<close>

definition hybrid_decrypt ::
  "crypto \<Rightarrow> envelope \<Rightarrow> private_key \<Rightarrow> string \<Rightarrow> exn + char entity_mapping" where
  "hybrid_decrypt lib encrypted_package private_key user_id =
     bind_exn (subscript (encrypted_aes_keys encrypted_package) ''encrypted_aes_keys'') (\<lambda>keys.
     case keys user_id of
       None \<Rightarrow> Inl (Exn ''ValueError'' (''No encrypted AES key found for user ID: '' @ user_id))
     | Some key_text \<Rightarrow>
         bind_exn (b64decode lib key_text) (\<lambda>encrypted_aes_key.
         bind_exn (rsa_oaep_decrypt lib private_key encrypted_aes_key) (\<lambda>aes_key.
         bind_exn (subscript (iv encrypted_package) ''iv'') (\<lambda>iv_text.
         bind_exn (b64decode lib iv_text) (\<lambda>iv_bytes.
         bind_exn (subscript (encrypted_data encrypted_package) ''encrypted_data'') (\<lambda>data_text.
         bind_exn (b64decode lib data_text) (\<lambda>encrypted_bytes.
         bind_exn (aes_cfb_decrypt lib aes_key iv_bytes encrypted_bytes) (\<lambda>decrypted_data.
         bind_exn (utf8_decode lib decrypted_data) (\<lambda>decoded.
         json_loads lib decoded)))))))))"

section \<open>Files, effects and the batch processor\<close>

text \<open>
  A \<open>pathlib.Path\<close> with the three readings the program makes of it: the path as
  text, its stem and its suffix.
\<close>

datatype path = Path (path_str: string) (path_stem: string) (path_suffix: string)

text \<open>\<open>Path(folder) / name\<close>, as text.\<close>

definition joinpath :: "string \<Rightarrow> string \<Rightarrow> string" where
  "joinpath folder name = folder @ ''/'' @ name"

text \<open>
  The files the run reads are parameters of the model: what a recursive glob of a
  folder yields, in scan order, and for each path the result of opening and parsing
  it as a PEM private key, a PEM public key, a JSON document or UTF-8 text, each a
  value or the exception raised. A JSON document is read for the two fields the
  program subscripts, either of which may be absent.

  Saving and reporting can fail too. For an output path, \<open>open_error\<close> is the
  exception that \<open>open(output_file, "w", encoding="utf-8")\<close> raises, if any; for an
  output path and a text, \<open>write_error\<close> is the exception raised while the text is
  written to the opened file or the file is closed, if any; for a message,
  \<open>print_error\<close> is the exception that \<open>print\<close> raises for it, if any (a message of
  the loop carries a file name found by the scan, which the output stream may be unable
  to encode).
\<close>

record json_doc =
  anonymized_text :: "string option"
  encrypted_mapping :: "envelope option"

record world =
  rglob :: "string \<Rightarrow> string \<Rightarrow> path list"
  pem_private_key :: "string \<Rightarrow> exn + private_key"
  pem_public_key :: "string \<Rightarrow> exn + public_key"
  json_file :: "string \<Rightarrow> exn + json_doc"
  text_file :: "string \<Rightarrow> exn + string"
  file_exists :: "string \<Rightarrow> bool"
  open_error :: "string \<Rightarrow> exn option"
  write_error :: "string \<Rightarrow> string \<Rightarrow> exn option"
  print_error :: "string \<Rightarrow> exn option"

text \<open>
  What the run does to the outside is recorded as a trace of events, in order.
  \<open>OpenWrite\<close> is the opening of an output file, which creates it or truncates it
  to the empty text; \<open>WriteText\<close> is the text written to it and the file closed. A
  call that raises leaves no event. Creating the output folder and printing the notice of
  an empty run, which carries only the folder name given by the caller, are taken to
  succeed, and the files the run writes are not among the files it reads.
\<close>

datatype event =
    MakeDirs string
  | Rglob string string
  | LoadPrivateKey string
  | LoadPublicKey string
  | ReadJson string
  | ReadText string
  | OpenWrite string
  | WriteText string string
  | Print string

type_synonym 'a io = "event list \<times> (exn + 'a)"

definition io_bind :: "'a io \<Rightarrow> ('a \<Rightarrow> 'b io) \<Rightarrow> 'b io" where
  "io_bind m f =
     (case m of
        (tr, Inl e) \<Rightarrow> (tr, Inl e)
      | (tr, Inr x) \<Rightarrow> (case f x of (tr', r) \<Rightarrow> (tr @ tr', r)))"

definition emit :: "event \<Rightarrow> unit io" where
  "emit ev = ([ev], Inr ())"

definition io_of :: "exn + 'a \<Rightarrow> 'a io" where
  "io_of r = ([], r)"

text \<open>\<open>print(msg)\<close> inside the loop: the message is printed, or the call raises.\<close>

definition print_line :: "world \<Rightarrow> string \<Rightarrow> unit io" where
  "print_line w msg =
     (case print_error w msg of
        None \<Rightarrow> ([Print msg], Inr ())
      | Some e \<Rightarrow> ([], Inl e))"

subsection \<open>\<open>load_private_key\<close> and \<open>infer_user_id\<close>\<close>

text \<open>
  \<^verbatim>\<open>
  def load_private_key(private_key_path):
      with open(private_key_path, "rb") as private_file:
          private_key = serialization.load_pem_private_key(private_file.read(), password=None)
      return private_key
  \<close>
\<close>

definition load_private_key :: "world \<Rightarrow> string \<Rightarrow> private_key io" where
  "load_private_key w private_key_path =
     ([LoadPrivateKey private_key_path], pem_private_key w private_key_path)"

text \<open>
  \<^verbatim>\<open>
  def infer_user_id(private_key_path, public_keys_folder):
      private_key = load_private_key(private_key_path)
      for public_key_path in Path(public_keys_folder).rglob("*.pem"):
          try:
              with open(public_key_path, "rb") as pub_file:
                  public_key = serialization.load_pem_public_key(pub_file.read())
                  if private_key.private_numbers().public_numbers.n == public_key.public_numbers().n:
                      return public_key_path.stem
          except Exception:
              continue
      raise ValueError("No matching public key found for the provided private key.")
  \<close>
  \<open>compare_modulus\<close> is the body of the \<open>try\<close>: it raises when the file does not
  parse or when either key has no modulus. \<open>match_public_keys\<close> is the loop.
\<close>

definition compare_modulus :: "world \<Rightarrow> private_key \<Rightarrow> path \<Rightarrow> exn + bool" where
  "compare_modulus w private_key public_key_path =
     bind_exn (pem_public_key w (path_str public_key_path)) (\<lambda>public_key.
     bind_exn (private_numbers_n private_key) (\<lambda>n1.
     bind_exn (public_numbers_n public_key) (\<lambda>n2.
     Inr (n1 = n2))))"

fun match_public_keys :: "world \<Rightarrow> private_key \<Rightarrow> path list \<Rightarrow> string io" where
  "match_public_keys w private_key [] =
     ([], Inl (Exn ''ValueError'' ''No matching public key found for the provided private key.''))"
| "match_public_keys w private_key (public_key_path # rest) =
     (case compare_modulus w private_key public_key_path of
        Inr True \<Rightarrow> ([LoadPublicKey (path_str public_key_path)], Inr (path_stem public_key_path))
      | Inr False \<Rightarrow>
          io_bind (emit (LoadPublicKey (path_str public_key_path)))
            (\<lambda>_. match_public_keys w private_key rest)
      | Inl e \<Rightarrow>
          io_bind (emit (LoadPublicKey (path_str public_key_path)))
            (\<lambda>_. match_public_keys w private_key rest))"

definition infer_user_id :: "world \<Rightarrow> string \<Rightarrow> string \<Rightarrow> string io" where
  "infer_user_id w private_key_path public_keys_folder =
     io_bind (load_private_key w private_key_path) (\<lambda>private_key.
     io_bind (emit (Rglob public_keys_folder ''*.pem'')) (\<lambda>_.
     match_public_keys w private_key (rglob w public_keys_folder ''*.pem'')))"

subsection \<open>\<open>process_response_files\<close>\<close>

text \<open>
  The end of the \<open>try\<close> body, shared by both kinds of record:
  \<^verbatim>\<open>
  output_file = Path(reconstructed_folder) / f"{response_file_path.stem}_reconstructed.txt"
  with open(output_file, "w", encoding="utf-8") as output:
      output.write(reconstructed_text)
  print(f"Reconstructed text saved to {output_file}")
  \<close>
  Each of the three steps can raise, and all three are inside the \<open>try\<close>: when
  \<open>open\<close> raises, nothing has happened to the file; when the write raises, the file
  has been opened, so it exists and is empty; when \<open>print\<close> raises, the file has
  been written.
\<close>

definition save_reconstructed :: "world \<Rightarrow> string \<Rightarrow> path \<Rightarrow> string \<Rightarrow> unit io" where
  "save_reconstructed w reconstructed_folder response_file_path reconstructed_text =
     (let output_file =
            joinpath reconstructed_folder (path_stem response_file_path @ ''_reconstructed.txt'')
      in case open_error w output_file of
           Some e \<Rightarrow> ([], Inl e)
         | None \<Rightarrow>
             (case write_error w output_file reconstructed_text of
                Some e \<Rightarrow> ([OpenWrite output_file], Inl e)
              | None \<Rightarrow>
                  io_bind ([OpenWrite output_file, WriteText output_file reconstructed_text],
                           Inr ())
                    (\<lambda>_. print_line w (''Reconstructed text saved to '' @ output_file))))"

definition read_json :: "world \<Rightarrow> string \<Rightarrow> json_doc io" where
  "read_json w file = ([ReadJson file], json_file w file)"

definition read_text :: "world \<Rightarrow> string \<Rightarrow> string io" where
  "read_text w file = ([ReadText file], text_file w file)"

text \<open>
  The body of the \<open>try\<close> for one response file (lines 109 to 153 of the source). The
  two \<open>continue\<close> statements leave the body without an exception, after their notice.
\<close>

definition try_response_file ::
  "world \<Rightarrow> crypto \<Rightarrow> string \<Rightarrow> string \<Rightarrow> private_key \<Rightarrow> string \<Rightarrow> path \<Rightarrow> unit io" where
  "try_response_file w lib output_folder reconstructed_folder private_key user_id response_file_path =
     (if path_suffix response_file_path = ''.json'' then
        io_bind (read_json w (path_str response_file_path)) (\<lambda>data.
        io_bind (io_of (subscript (anonymized_text data) ''anonymized_text'')) (\<lambda>anonymized.
        io_bind (io_of (subscript (encrypted_mapping data) ''encrypted_mapping'')) (\<lambda>encrypted.
        io_bind (io_of (hybrid_decrypt lib encrypted private_key user_id)) (\<lambda>entity_mapping.
        save_reconstructed w reconstructed_folder response_file_path
          (reconstruct_text anonymized entity_mapping)))))
      else if path_suffix response_file_path = ''.txt'' then
        io_bind (read_text w (path_str response_file_path)) (\<lambda>reworked_text.
        let mapping_file_path =
              joinpath output_folder (path_stem response_file_path @ ''_processed.json'')
        in if \<not> file_exists w mapping_file_path then
             print_line w (''Mapping file not found for '' @ path_str response_file_path
                             @ ''. Skipping...'')
           else
             io_bind (read_json w mapping_file_path) (\<lambda>mapping_data.
             io_bind (io_of (subscript (encrypted_mapping mapping_data) ''encrypted_mapping''))
               (\<lambda>encrypted.
             io_bind (io_of (hybrid_decrypt lib encrypted private_key user_id)) (\<lambda>entity_mapping.
             save_reconstructed w reconstructed_folder response_file_path
               (reconstruct_text reworked_text entity_mapping)))))
      else
        print_line w (''Unsupported file type: '' @ path_str response_file_path
                        @ ''. Skipping...''))"

text \<open>
  One iteration of the loop: the body, and the handler
  \<^verbatim>\<open>except Exception as e: print(f"Error processing {response_file_path}: {e}")\<close>
  after which the loop goes on. The \<open>print\<close> of the handler is not inside a
  \<open>try\<close>: an exception it raises leaves the loop and the function.
\<close>

definition process_response_file ::
  "world \<Rightarrow> crypto \<Rightarrow> string \<Rightarrow> string \<Rightarrow> private_key \<Rightarrow> string \<Rightarrow> path \<Rightarrow> unit io" where
  "process_response_file w lib output_folder reconstructed_folder private_key user_id response_file_path =
     (case try_response_file w lib output_folder reconstructed_folder private_key user_id
             response_file_path of
        (tr, Inl e) \<Rightarrow>
          io_bind (tr, Inr ())
            (\<lambda>_. print_line w
                   (''Error processing '' @ path_str response_file_path @ '': '' @ exn_str e))
      | (tr, Inr u) \<Rightarrow> (tr, Inr ()))"

fun process_files ::
  "world \<Rightarrow> crypto \<Rightarrow> string \<Rightarrow> string \<Rightarrow> private_key \<Rightarrow> string \<Rightarrow> path list \<Rightarrow> unit io" where
  "process_files w lib output_folder reconstructed_folder private_key user_id [] = ([], Inr ())"
| "process_files w lib output_folder reconstructed_folder private_key user_id
     (response_file_path # rest) =
     io_bind
       (process_response_file w lib output_folder reconstructed_folder private_key user_id
          response_file_path)
       (\<lambda>_. process_files w lib output_folder reconstructed_folder private_key user_id rest)"

text \<open>
  \<^verbatim>\<open>
  def process_response_files(response_folder, output_folder, reconstructed_folder,
                             private_key_path, public_keys_folder):
      os.makedirs(reconstructed_folder, exist_ok=True)
      response_files = list(Path(response_folder).rglob("*"))
      if not response_files:
          print(f"No files found in the '{response_folder}' folder. Please check your input.")
          return
      user_id = infer_user_id(private_key_path, public_keys_folder)
      private_key = load_private_key(private_key_path)
      for response_file_path in response_files:
          ...
  \<close>
  An exception of \<open>infer_user_id\<close> or \<open>load_private_key\<close>, or of the handler of the
  loop, is not handled and ends the run.
\<close>

definition process_response_files ::
  "world \<Rightarrow> crypto \<Rightarrow> string \<Rightarrow> string \<Rightarrow> string \<Rightarrow> string \<Rightarrow> string \<Rightarrow> unit io" where
  "process_response_files w lib response_folder output_folder reconstructed_folder
     private_key_path public_keys_folder =
     io_bind (emit (MakeDirs reconstructed_folder)) (\<lambda>_.
     io_bind (emit (Rglob response_folder ''*'')) (\<lambda>_.
     let response_files = rglob w response_folder ''*'' in
     if response_files = [] then
       emit (Print (''No files found in the '' @ [CHR 0x27] @ response_folder @ [CHR 0x27]
                      @ '' folder. Please check your input.''))
     else
       io_bind (infer_user_id w private_key_path public_keys_folder) (\<lambda>user_id.
       io_bind (load_private_key w private_key_path) (\<lambda>private_key.
       process_files w lib output_folder reconstructed_folder private_key user_id
         response_files))))"

section \<open>Observations\<close>

subsection \<open>Observations of a trace\<close>

text \<open>
  The files written and the messages printed, in order; the reports of the exception
  handler of the loop; the private key files loaded; the folders scanned for public
  keys; the events that processing a response file can cause; and the content of a file
  after a trace, which its last opening or writing decides (\<open>None\<close> when the trace does
  not touch the file).
\<close>

fun written :: "event list \<Rightarrow> (string \<times> string) list" where
  "written [] = []"
| "written (WriteText file text # tr) = (file, text) # written tr"
| "written (ev # tr) = written tr"

fun printed :: "event list \<Rightarrow> string list" where
  "printed [] = []"
| "printed (Print msg # tr) = msg # printed tr"
| "printed (ev # tr) = printed tr"

definition error_reports :: "event list \<Rightarrow> string list" where
  "error_reports tr = filter (prefix ''Error processing '') (printed tr)"

fun key_loads :: "event list \<Rightarrow> string list" where
  "key_loads [] = []"
| "key_loads (LoadPrivateKey file # tr) = file # key_loads tr"
| "key_loads (ev # tr) = key_loads tr"

fun key_scans :: "event list \<Rightarrow> string list" where
  "key_scans [] = []"
| "key_scans (Rglob folder pattern # tr) =
     (if pattern = ''*.pem'' then folder # key_scans tr else key_scans tr)"
| "key_scans (ev # tr) = key_scans tr"

fun record_event :: "event \<Rightarrow> bool" where
  "record_event (ReadJson file) = True"
| "record_event (ReadText file) = True"
| "record_event (OpenWrite file) = True"
| "record_event (WriteText file text) = True"
| "record_event (Print msg) = True"
| "record_event ev = False"

fun event_content :: "event \<Rightarrow> string \<Rightarrow> string option" where
  "event_content (OpenWrite file) f = (if file = f then Some [] else None)"
| "event_content (WriteText file text) f = (if file = f then Some text else None)"
| "event_content ev f = None"

fun file_content :: "event list \<Rightarrow> string \<Rightarrow> string option" where
  "file_content [] f = None"
| "file_content (ev # tr) f =
     (case file_content tr f of
        Some text \<Rightarrow> Some text
      | None \<Rightarrow> event_content ev f)"

subsection \<open>The match of the specification\<close>

text \<open>
  A candidate of the catalog matches the private key when its file parses to a public
  key whose modulus equals the modulus derived from the private key.
\<close>

definition same_modulus :: "private_key \<Rightarrow> public_key \<Rightarrow> bool" where
  "same_modulus private_key public_key =
     (case (private_key, public_key) of
        (RSAPrivateKey n d, RSAPublicKey n' e) \<Rightarrow> n = n'
      | _ \<Rightarrow> False)"

definition candidate_matches :: "world \<Rightarrow> private_key \<Rightarrow> path \<Rightarrow> bool" where
  "candidate_matches w private_key public_key_path =
     (case pem_public_key w (path_str public_key_path) of
        Inr public_key \<Rightarrow> same_modulus private_key public_key
      | Inl e \<Rightarrow> False)"

section \<open>An example run\<close>

text \<open>
  A small world and a stand-in for the libraries, fixed at the inputs of the examples:
  three public keys of which one is unreadable and one is the counterpart of the
  private key, and three response files of which the second has a corrupted
  ciphertext. A fourth record, \<open>record_d\<close>, is not in the response folder; it has the
  stem of the third, and writing its reconstructed text raises.
\<close>

definition alice_key :: private_key where
  "alice_key = RSAPrivateKey 3233 2753"

definition mapping_json :: string where
  \<open>mapping_json = ''[["PERSON_1", "Alice"], ["ORG_1", "Acme"]]''\<close>

definition utf8_error :: exn where
  "utf8_error = Exn ''UnicodeDecodeError''
     ([CHR 0x27] @ ''utf-8'' @ [CHR 0x27]
        @ '' codec can't decode byte 0xff in position 0: invalid start byte'')"

definition toy_lib :: crypto where
  "toy_lib = \<lparr>
     b64decode = (\<lambda>s.
       if s = ''a2V5'' then Inr [0x6b, 0x65, 0x79]
       else if s = ''aXY='' then Inr [0x69, 0x76]
       else if s = ''ZGF0YQ=='' then Inr [0x64, 0x61, 0x74, 0x61]
       else if s = ''ZGF0WQ=='' then Inr [0x64, 0x61, 0x74, 0x59]
       else Inl (Exn ''binascii.Error'' ''Incorrect padding'')),
     rsa_oaep_decrypt = (\<lambda>private_key ciphertext.
       if private_key = alice_key \<and> ciphertext = [0x6b, 0x65, 0x79] then Inr (replicate 16 0x2a)
       else Inl (Exn ''ValueError'' ''Decryption failed'')),
     aes_cfb_decrypt = (\<lambda>key iv_bytes ciphertext.
       if key = replicate 16 0x2a \<and> iv_bytes = [0x69, 0x76] \<and> ciphertext = [0x64, 0x61, 0x74, 0x61]
       then Inr [0x5b, 0x5b] else Inr [0xff]),
     utf8_decode = (\<lambda>bs.
       if bs = [0x5b, 0x5b] then Inr mapping_json
       else Inl utf8_error),
     json_loads = (\<lambda>s.
       if s = mapping_json then Inr [(''PERSON_1'', ''Alice''), (''ORG_1'', ''Acme'')]
       else Inl (Exn ''JSONDecodeError'' ''Expecting value: line 1 column 1 (char 0)''))
   \<rparr>"

definition good_envelope :: envelope where
  "good_envelope = \<lparr>
     encrypted_aes_keys = Some [''alice'' \<mapsto> ''a2V5'', ''bob'' \<mapsto> ''aXY=''],
     iv = Some ''aXY='',
     encrypted_data = Some ''ZGF0YQ=='' \<rparr>"

definition corrupt_envelope :: envelope where
  "corrupt_envelope = good_envelope \<lparr> encrypted_data := Some ''ZGF0WQ=='' \<rparr>"

definition wrong_key_envelope :: envelope where
  "wrong_key_envelope = good_envelope \<lparr> encrypted_aes_keys := Some [''alice'' \<mapsto> ''aXY=''] \<rparr>"

definition record_a :: path where "record_a = Path ''response/a.json'' ''a'' ''.json''"
definition record_b :: path where "record_b = Path ''response/b.json'' ''b'' ''.json''"
definition record_c :: path where "record_c = Path ''response/c.txt'' ''c'' ''.txt''"
definition record_d :: path where "record_d = Path ''response/c.json'' ''c'' ''.json''"

definition encode_error :: exn where
  "encode_error = Exn ''UnicodeEncodeError'' ''surrogates not allowed''"

definition public_keys_catalog :: "path list" where
  "public_keys_catalog =
     [Path ''public_keys/bob.pem'' ''bob'' ''.pem'',
      Path ''public_keys/notes.pem'' ''notes'' ''.pem'',
      Path ''public_keys/alice.pem'' ''alice'' ''.pem'']"

definition toy_world :: world where
  "toy_world = \<lparr>
     rglob = (\<lambda>folder pattern.
       if folder = ''public_keys'' \<and> pattern = ''*.pem'' then
         public_keys_catalog
       else if folder = ''response'' \<and> pattern = ''*'' then [record_a, record_b, record_c]
       else []),
     pem_private_key = (\<lambda>file.
       if file = ''private_key.pem'' then Inr alice_key
       else if file = ''carol_key.pem'' then Inr (RSAPrivateKey 2773 17)
       else Inl (Exn ''FileNotFoundError'' ''No such file or directory'')),
     pem_public_key = (\<lambda>file.
       if file = ''public_keys/bob.pem'' then Inr (RSAPublicKey 3127 17)
       else if file = ''public_keys/alice.pem'' then Inr (RSAPublicKey 3233 17)
       else Inl (Exn ''ValueError'' ''Unable to load PEM file'')),
     json_file = (\<lambda>file.
       if file = ''response/a.json'' then
         Inr \<lparr> anonymized_text = Some ''Hello PERSON_1, from ORG_1'',
               encrypted_mapping = Some good_envelope \<rparr>
       else if file = ''response/b.json'' then
         Inr \<lparr> anonymized_text = Some ''Dear PERSON_1'',
               encrypted_mapping = Some corrupt_envelope \<rparr>
       else if file = ''output/c_processed.json'' then
         Inr \<lparr> anonymized_text = None, encrypted_mapping = Some good_envelope \<rparr>
       else if file = ''response/c.json'' then
         Inr \<lparr> anonymized_text = Some ''Note for PERSON_1'',
               encrypted_mapping = Some good_envelope \<rparr>
       else Inl (Exn ''FileNotFoundError'' ''No such file or directory'')),
     text_file = (\<lambda>file.
       if file = ''response/c.txt'' then Inr ''ORG_1 thanks PERSON_1''
       else Inl (Exn ''FileNotFoundError'' ''No such file or directory'')),
     file_exists = (\<lambda>file. file = ''output/c_processed.json''),
     open_error = (\<lambda>file. None),
     write_error = (\<lambda>file text.
       if file = ''reconstructed/c_reconstructed.txt'' \<and> text = ''Note for Alice''
       then Some encode_error else None),
     print_error = (\<lambda>msg. None)
   \<rparr>"

text \<open>
  The same world with an output stream that cannot print the error report of the second
  record.
\<close>

definition unprintable_world :: world where
  "unprintable_world = toy_world \<lparr> print_error := (\<lambda>msg.
     if msg = ''Error processing response/b.json: '' @ exn_str utf8_error
     then Some encode_error else None) \<rparr>"

section \<open>Properties of \<open>str_replace\<close>\<close>

lemma str_replace_absent:
  "\<not> sublist old s \<Longrightarrow> str_replace s old new = s"
proof (induction s)
  case Nil
  then show ?case by simp
next
  case (Cons c cs)
  from Cons.prems have ne: "old \<noteq> []" by auto
  from Cons.prems have np: "\<not> prefix old (c # cs)" and ns: "\<not> sublist old cs"
    by (simp_all add: sublist_Cons_right)
  from ns have "str_replace cs old new = cs" by (rule Cons.IH)
  with ne np show ?case by simp
qed

lemma str_replace_empty:
  "str_replace s [] new = new @ concat (map (\<lambda>c. c # new) s)"
  by (induction s) simp_all

lemma join_Cons_nonempty:
  "segs \<noteq> [] \<Longrightarrow> join sep (a # segs) = a @ sep @ join sep segs"
  by (cases segs) simp_all

lemma join_push_head:
  "join sep ((c # a) # segs) = c # join sep (a # segs)"
  by (cases segs) simp_all

lemma str_replace_segments:
  assumes "old \<noteq> []"
  shows "\<exists>segs. segs \<noteq> [] \<and> s = join old segs \<and> str_replace s old new = join new segs
           \<and> (\<forall>a \<in> set segs. \<not> sublist old a)"
  using assms
proof (induction s old new rule: str_replace.induct)
  case (1 old new)
  have "[[]] \<noteq> [] \<and> [] = join old [[]] \<and> str_replace [] old new = join new [[]]
          \<and> (\<forall>a \<in> set [[]]. \<not> sublist old a)"
    using "1.prems" by simp
  then show ?case by blast
next
  case (2 c cs old new)
  show ?case
  proof (cases "prefix old (c # cs)")
    case True
    let ?rest = "drop (length old) (c # cs)"
    from "2.IH"(2) [OF "2.prems" True "2.prems"]
    obtain segs where segs: "segs \<noteq> []" "?rest = join old segs"
        "str_replace ?rest old new = join new segs" "\<forall>a \<in> set segs. \<not> sublist old a"
      by blast
    from True have split: "c # cs = old @ ?rest"
      by (metis append_eq_conv_conj prefixE)
    have "[] # segs \<noteq> []" by simp
    moreover have "c # cs = join old ([] # segs)"
      using split segs(1,2) by (simp add: join_Cons_nonempty)
    moreover have "str_replace (c # cs) old new = join new ([] # segs)"
      using True "2.prems" segs(1,3) by (simp add: join_Cons_nonempty)
    moreover have "\<forall>a \<in> set ([] # segs). \<not> sublist old a"
      using segs(4) "2.prems" by simp
    ultimately show ?thesis by blast
  next
    case False
    from "2.IH"(3) [OF "2.prems" False "2.prems"]
    obtain segs where segs: "segs \<noteq> []" "cs = join old segs"
        "str_replace cs old new = join new segs" "\<forall>a \<in> set segs. \<not> sublist old a"
      by blast
    from segs(1) obtain a rest where ar: "segs = a # rest" by (cases segs) auto
    have pre: "prefix a cs"
    proof (cases rest)
      case Nil
      with ar segs(2) show ?thesis by simp
    next
      case (Cons b bs)
      with ar segs(2) show ?thesis by simp
    qed
    have "\<not> sublist old (c # a)"
    proof
      assume "sublist old (c # a)"
      then have "prefix old (c # a) \<or> sublist old a" by (simp add: sublist_Cons_right)
      moreover have "\<not> sublist old a" using segs(4) ar by simp
      ultimately have "prefix old (c # a)" by blast
      moreover have "prefix (c # a) (c # cs)" using pre by simp
      ultimately have "prefix old (c # cs)" by (rule prefix_order.trans)
      with False show False by contradiction
    qed
    then have "\<forall>x \<in> set ((c # a) # rest). \<not> sublist old x" using segs(4) ar by simp
    moreover have "c # cs = join old ((c # a) # rest)"
      using segs(2) ar by (simp add: join_push_head)
    moreover have "str_replace (c # cs) old new = join new ((c # a) # rest)"
      using False "2.prems" segs(3) ar by (simp add: join_push_head)
    moreover have "(c # a) # rest \<noteq> []" by simp
    ultimately show ?thesis by blast
  qed
qed

lemma str_replace_empty_segments:
  "str_replace s [] new = join new ([] # map (\<lambda>c. [c]) s @ [[]])
     \<and> s = join [] ([] # map (\<lambda>c. [c]) s @ [[]])"
proof (induction s)
  case Nil
  show ?case by simp
next
  case (Cons c cs)
  have ne: "map (\<lambda>c. [c]) cs @ [[]] \<noteq> []" by simp
  have step: "join sep ([] # [c] # map (\<lambda>c. [c]) cs @ [[]])
                = sep @ c # join sep ([] # map (\<lambda>c. [c]) cs @ [[]])" for sep :: "'a list"
    using ne by (simp add: join_Cons_nonempty)
  from Cons.IH show ?case by (simp add: step del: join.simps)
qed

lemma reconstruct_text_foldl:
  "reconstruct_text t m = foldl (\<lambda>s (p, orig). str_replace s p orig) t m"
  by (induction t m rule: reconstruct_text.induct) simp_all

lemma reconstruct_text_absent:
  "\<forall>(p, orig) \<in> set m. \<not> sublist p s \<Longrightarrow> reconstruct_text s m = s"
proof (induction m)
  case Nil
  show ?case by simp
next
  case (Cons pr m)
  obtain p orig where pr: "pr = (p, orig)" by (cases pr)
  from Cons.prems pr have "\<not> sublist p s" by simp
  then have "str_replace s p orig = s" by (rule str_replace_absent)
  moreover from Cons.prems have "reconstruct_text s m = s" by (intro Cons.IH) simp
  ultimately show ?case using pr by simp
qed

section \<open>Claims about reconstruction\<close>

text \<open>
  C2. Reconstruction applies the pairs of the mapping in the order given: it is the
  left fold of \<open>str_replace\<close> over the mapping. Each step replaces all occurrences of
  its placeholder: for a non-empty placeholder the text is cut at occurrences of the
  placeholder into segments none of which contains the placeholder, and the result
  joins the same segments with the original value; the empty placeholder cuts the text
  at every position. A pair whose placeholder does not occur in the text leaves the
  text unchanged at that step. On the example of the specification the result is
  \<open>Hello Alice, from Acme\<close>.
\<close>

theorem reconstruct_text_sequential:
  "reconstruct_text t m = foldl (\<lambda>s (p, orig). str_replace s p orig) t m
   \<and> (old \<noteq> [] \<longrightarrow>
        (\<exists>segs. segs \<noteq> [] \<and> s = join old segs \<and> str_replace s old new = join new segs
           \<and> (\<forall>a \<in> set segs. \<not> sublist old a)))
   \<and> (old = [] \<longrightarrow>
        s = join old ([] # map (\<lambda>c. [c]) s @ [[]])
        \<and> str_replace s old new = join new ([] # map (\<lambda>c. [c]) s @ [[]]))
   \<and> (\<not> sublist old s \<longrightarrow> str_replace s old new = s)
   \<and> reconstruct_text ''Hello PERSON_1, from ORG_1''
         [(''PERSON_1'', ''Alice''), (''ORG_1'', ''Acme'')] = ''Hello Alice, from Acme''"
proof (intro conjI impI)
  show "reconstruct_text t m = foldl (\<lambda>s (p, orig). str_replace s p orig) t m"
    by (rule reconstruct_text_foldl)
next
  assume "old \<noteq> []"
  then show "\<exists>segs. segs \<noteq> [] \<and> s = join old segs \<and> str_replace s old new = join new segs
           \<and> (\<forall>a \<in> set segs. \<not> sublist old a)"
    by (rule str_replace_segments)
next
  assume "old = []"
  then show "s = join old ([] # map (\<lambda>c. [c]) s @ [[]])"
    using str_replace_empty_segments [of s new] by simp
next
  assume "old = []"
  then show "str_replace s old new = join new ([] # map (\<lambda>c. [c]) s @ [[]])"
    using str_replace_empty_segments [of s new] by simp
next
  assume "\<not> sublist old s"
  then show "str_replace s old new = s" by (rule str_replace_absent)
next
  show "reconstruct_text ''Hello PERSON_1, from ORG_1''
         [(''PERSON_1'', ''Alice''), (''ORG_1'', ''Acme'')] = ''Hello Alice, from Acme''"
    by simp
qed

theorem reconstruct_text_sequential_witness:
  "''ORG_1'' \<noteq> [] \<and> \<not> sublist ''ORG_1'' ''Hello Alice'' \<and> [] = ([] :: string)
   \<and> (\<exists>segs. segs \<noteq> [] \<and> ''Hello Alice'' = join ''ORG_1'' segs
          \<and> str_replace ''Hello Alice'' ''ORG_1'' ''Acme'' = join ''Acme'' segs
          \<and> (\<forall>a \<in> set segs. \<not> sublist ''ORG_1'' a))
   \<and> str_replace ''Hello Alice'' ''ORG_1'' ''Acme'' = ''Hello Alice''
   \<and> str_replace ''ab'' [] ''-'' = join ''-'' ([] # map (\<lambda>c. [c]) ''ab'' @ [[]])"
proof -
  have h1: "''ORG_1'' \<noteq> []" by simp
  have h2: "\<not> sublist ''ORG_1'' ''Hello Alice''" by (simp add: sublist_Cons_right)
  have h3: "[] = ([] :: string)" by simp
  note a = reconstruct_text_sequential [of "[]" "[]" "''ORG_1''" "''Hello Alice''" "''Acme''"]
  note b = reconstruct_text_sequential [of "[]" "[]" "[]" "''ab''" "''-''"]
  from a h1 h2 b h3 show ?thesis by blast
qed

text \<open>
  C10. An empty placeholder is not a no-op: \<open>reconstruct_text t [("", v)]\<close> is \<open>v\<close>
  followed by every code point of \<open>t\<close> each followed by \<open>v\<close>, so \<open>ab\<close> becomes
  \<open>v a v b v\<close>, and for a non-empty \<open>v\<close> the result differs from \<open>t\<close>.
\<close>

theorem reconstruct_text_empty_placeholder:
  "reconstruct_text t [([], v)] = v @ concat (map (\<lambda>c. c # v) t)
   \<and> reconstruct_text [a, b] [([], v)] = v @ [a] @ v @ [b] @ v
   \<and> (v \<noteq> [] \<longrightarrow> reconstruct_text t [([], v)] \<noteq> t)"
proof (intro conjI impI)
  show closed: "reconstruct_text t [([], v)] = v @ concat (map (\<lambda>c. c # v) t)"
    by (simp add: str_replace_empty)
  show "reconstruct_text [a, b] [([], v)] = v @ [a] @ v @ [b] @ v"
    by simp
  assume "v \<noteq> []"
  moreover have "length t \<le> length (concat (map (\<lambda>c. c # v) t))"
    by (induction t) simp_all
  ultimately have "length t < length (v @ concat (map (\<lambda>c. c # v) t))"
    by (cases v) simp_all
  then have "v @ concat (map (\<lambda>c. c # v) t) \<noteq> t" by (metis less_irrefl)
  with closed show "reconstruct_text t [([], v)] \<noteq> t" by simp
qed

theorem reconstruct_text_empty_placeholder_witness:
  "''-'' \<noteq> [] \<and> reconstruct_text ''ab'' [([], ''-'')] = ''-a-b-''
   \<and> reconstruct_text ''ab'' [([], ''-'')] \<noteq> ''ab''"
  using reconstruct_text_empty_placeholder [of "''ab''" "''-''"] by simp

text \<open>
  C7, as stated: if no placeholder is a substring of any original value, applying the
  mapping twice gives the same text as applying it once. This fails: replacing \<open>ab\<close>
  by \<open>b\<close> in \<open>aab\<close> joins the text around the match into a new occurrence of the
  placeholder, which the second application replaces.
\<close>

theorem reconstruct_text_idempotent_counterexample:
  "\<not> sublist ''ab'' ''b''
   \<and> reconstruct_text ''aab'' [(''ab'', ''b'')] = ''ab''
   \<and> reconstruct_text (reconstruct_text ''aab'' [(''ab'', ''b'')]) [(''ab'', ''b'')] = ''b''"
  by (simp add: sublist_Cons_right)

text \<open>
  C7, amended: reconstruction with an empty mapping is the identity on every text, and
  applying a mapping a second time changes nothing whenever no placeholder of the
  mapping is a substring of the text reconstructed by the first application.
\<close>

theorem reconstruct_text_idempotent:
  "reconstruct_text t [] = t
   \<and> ((\<forall>(p, orig) \<in> set m. \<not> sublist p (reconstruct_text t m)) \<longrightarrow>
        reconstruct_text (reconstruct_text t m) m = reconstruct_text t m)"
  using reconstruct_text_absent [of m "reconstruct_text t m"] by simp

theorem reconstruct_text_idempotent_witness:
  "\<not> sublist ''PERSON_1'' (reconstruct_text ''Hi PERSON_1'' [(''PERSON_1'', ''Alice'')])
   \<and> reconstruct_text ''Hi PERSON_1'' [(''PERSON_1'', ''Alice'')] = ''Hi Alice''
   \<and> reconstruct_text (reconstruct_text ''Hi PERSON_1'' [(''PERSON_1'', ''Alice'')])
         [(''PERSON_1'', ''Alice'')] = ''Hi Alice''"
proof -
  have r: "reconstruct_text ''Hi PERSON_1'' [(''PERSON_1'', ''Alice'')] = ''Hi Alice''"
    by simp
  have n: "\<not> sublist ''PERSON_1'' (reconstruct_text ''Hi PERSON_1'' [(''PERSON_1'', ''Alice'')])"
    unfolding r by (simp add: sublist_Cons_right)
  then have h: "\<forall>(p, orig) \<in> set [(''PERSON_1'', ''Alice'')].
       \<not> sublist p (reconstruct_text ''Hi PERSON_1'' [(''PERSON_1'', ''Alice'')])"
    by simp
  note t = reconstruct_text_idempotent [of "''Hi PERSON_1''" "[(''PERSON_1'', ''Alice'')]",
      THEN conjunct2, THEN mp, OF h]
  from t r have "reconstruct_text (reconstruct_text ''Hi PERSON_1'' [(''PERSON_1'', ''Alice'')])
         [(''PERSON_1'', ''Alice'')] = ''Hi Alice''" by simp
  with n r show ?thesis by (intro conjI)
qed

section \<open>Evaluation of the example\<close>

text \<open>The definitions that the simplifier unfolds to run the example.\<close>

lemmas toy_defs = toy_lib_def toy_world_def good_envelope_def corrupt_envelope_def
  wrong_key_envelope_def record_a_def record_b_def record_c_def alice_key_def
  utf8_error_def public_keys_catalog_def mapping_json_def
  record_d_def encode_error_def unprintable_world_def

lemmas run_defs = hybrid_decrypt_def bind_exn_def subscript_def io_bind_def emit_def io_of_def
  process_response_files_def infer_user_id_def load_private_key_def compare_modulus_def
  process_response_file_def try_response_file_def save_reconstructed_def read_json_def
  read_text_def print_line_def joinpath_def private_numbers_n_def public_numbers_n_def Let_def

lemmas try_defs = try_response_file_def io_bind_def read_json_def read_text_def io_of_def
  emit_def save_reconstructed_def print_line_def Let_def

section \<open>Properties of traces, of identity resolution and of the loop\<close>

lemma written_append: "written (xs @ ys) = written xs @ written ys"
  by (induction xs rule: written.induct) simp_all

lemma printed_append: "printed (xs @ ys) = printed xs @ printed ys"
  by (induction xs rule: printed.induct) simp_all

lemma error_reports_append: "error_reports (xs @ ys) = error_reports xs @ error_reports ys"
  by (simp add: error_reports_def printed_append)

lemma key_loads_append: "key_loads (xs @ ys) = key_loads xs @ key_loads ys"
  by (induction xs rule: key_loads.induct) simp_all

lemma key_scans_append: "key_scans (xs @ ys) = key_scans xs @ key_scans ys"
  by (induction xs rule: key_scans.induct) simp_all

lemma record_events_no_keys:
  "\<forall>ev \<in> set tr. record_event ev \<Longrightarrow> key_loads tr = [] \<and> key_scans tr = []"
proof (induction tr)
  case Nil
  show ?case by simp
next
  case (Cons ev tr)
  then show ?case by (cases ev) simp_all
qed

lemma fst_io_bind:
  "fst (io_bind m f) = (case snd m of Inl e \<Rightarrow> fst m | Inr x \<Rightarrow> fst m @ fst (f x))"
  by (cases m) (auto simp: io_bind_def split: sum.splits prod.splits)

lemma snd_io_bind:
  "snd (io_bind m f) = (case snd m of Inl e \<Rightarrow> Inl e | Inr x \<Rightarrow> snd (f x))"
  by (cases m) (auto simp: io_bind_def split: sum.splits prod.splits)

lemma io_bind_return: "io_bind ([], Inr x) f = f x"
  by (cases "f x") (simp add: io_bind_def)

lemma io_bind_assoc: "io_bind (io_bind m f) g = io_bind m (\<lambda>x. io_bind (f x) g)"
  by (cases m) (auto simp: io_bind_def split: sum.splits prod.splits)

lemma io_bind_events:
  assumes "\<forall>ev \<in> set (fst m). P ev" and "\<And>x. \<forall>ev \<in> set (fst (f x)). P ev"
  shows "\<forall>ev \<in> set (fst (io_bind m f)). P ev"
proof -
  obtain tr res where m: "m = (tr, res)" by (cases m)
  show ?thesis
  proof (cases res)
    case (Inl e)
    with m assms(1) show ?thesis by (simp add: io_bind_def)
  next
    case (Inr x)
    obtain tr' res' where f: "f x = (tr', res')" by (cases "f x")
    from assms(2) [of x] f have "\<forall>ev \<in> set tr'. P ev" by simp
    with m Inr f assms(1) show ?thesis by (simp add: io_bind_def ball_Un)
  qed
qed

lemma file_content_append:
  "file_content (xs @ ys) f =
     (case file_content ys f of Some text \<Rightarrow> Some text | None \<Rightarrow> file_content xs f)"
  by (induction xs) (simp_all split: option.splits)

lemma file_content_skip:
  "file_content ys f = None \<Longrightarrow> file_content (xs @ ys @ zs) f = file_content (xs @ zs) f"
  by (simp add: file_content_append split: option.splits)

lemma no_report_events:
  "\<forall>ev \<in> set tr. \<forall>msg. ev = Print msg \<longrightarrow> \<not> prefix ''Error processing '' msg \<Longrightarrow>
     error_reports tr = []"
proof (induction tr)
  case Nil
  show ?case by (simp add: error_reports_def)
next
  case (Cons ev tr)
  then show ?case by (cases ev) (simp_all add: error_reports_def)
qed

lemma no_content_events:
  "\<forall>ev \<in> set tr. event_content ev f = None \<Longrightarrow> file_content tr f = None"
  by (induction tr) simp_all

lemma error_report_single:
  "error_reports [Print (''Error processing '' @ p @ '': '' @ m)]
     = [''Error processing '' @ p @ '': '' @ m]"
  by (simp add: error_reports_def)

lemma compare_modulus_True:
  "compare_modulus w private_key p = Inr True \<longleftrightarrow> candidate_matches w private_key p"
  by (auto simp: compare_modulus_def candidate_matches_def same_modulus_def bind_exn_def
        private_numbers_n_def public_numbers_n_def
      split: sum.splits private_key.splits public_key.splits)

lemma match_public_keys_find:
  "snd (match_public_keys w private_key catalog) =
     (case find (candidate_matches w private_key) catalog of
        Some p \<Rightarrow> Inr (path_stem p)
      | None \<Rightarrow>
          Inl (Exn ''ValueError'' ''No matching public key found for the provided private key.''))"
proof (induction catalog)
  case Nil
  show ?case by simp
next
  case (Cons p catalog)
  show ?case
  proof (cases "candidate_matches w private_key p")
    case True
    then have "compare_modulus w private_key p = Inr True" by (simp add: compare_modulus_True)
    with True show ?thesis by simp
  next
    case False
    then have ne: "compare_modulus w private_key p \<noteq> Inr True" by (simp add: compare_modulus_True)
    have "snd (match_public_keys w private_key (p # catalog))
            = snd (match_public_keys w private_key catalog)"
    proof (cases "compare_modulus w private_key p")
      case (Inl e)
      then show ?thesis by (simp add: snd_io_bind emit_def)
    next
      case (Inr b)
      with ne have "b = False" by simp
      with Inr show ?thesis by (simp add: snd_io_bind emit_def)
    qed
    with False Cons.IH show ?thesis by simp
  qed
qed

lemma match_public_keys_events:
  "\<forall>ev \<in> set (fst (match_public_keys w private_key catalog)). \<exists>file. ev = LoadPublicKey file"
proof (induction catalog)
  case Nil
  show ?case by simp
next
  case (Cons p catalog)
  show ?case
  proof (cases "compare_modulus w private_key p")
    case (Inl e)
    with Cons.IH show ?thesis by (simp add: fst_io_bind emit_def)
  next
    case (Inr b)
    with Cons.IH show ?thesis by (cases b) (simp_all add: fst_io_bind emit_def)
  qed
qed

lemma public_key_loads_only:
  "\<forall>ev \<in> set tr. \<exists>file. ev = LoadPublicKey file \<Longrightarrow>
     key_loads tr = [] \<and> key_scans tr = [] \<and> written tr = [] \<and> (\<forall>ev \<in> set tr. \<not> record_event ev)"
proof (induction tr)
  case Nil
  show ?case by simp
next
  case (Cons ev tr)
  then show ?case by (cases ev) auto
qed

lemma infer_user_id_snd:
  "pem_private_key w private_key_path = Inr private_key \<Longrightarrow>
     snd (infer_user_id w private_key_path public_keys_folder)
       = snd (match_public_keys w private_key (rglob w public_keys_folder ''*.pem''))"
  by (simp add: infer_user_id_def load_private_key_def snd_io_bind emit_def)

lemma infer_user_id_Inr:
  "snd (infer_user_id w private_key_path public_keys_folder) = Inr user_id \<Longrightarrow>
     \<exists>private_key. pem_private_key w private_key_path = Inr private_key"
  by (cases "pem_private_key w private_key_path")
     (simp_all add: infer_user_id_def load_private_key_def snd_io_bind)

lemma infer_user_id_trace:
  "key_loads (fst (infer_user_id w private_key_path public_keys_folder)) = [private_key_path]
   \<and> written (fst (infer_user_id w private_key_path public_keys_folder)) = []
   \<and> (\<forall>ev \<in> set (fst (infer_user_id w private_key_path public_keys_folder)). \<not> record_event ev)
   \<and> key_scans (fst (infer_user_id w private_key_path public_keys_folder))
        = (case pem_private_key w private_key_path of Inl e \<Rightarrow> [] | Inr k \<Rightarrow> [public_keys_folder])"
proof (cases "pem_private_key w private_key_path")
  case (Inl e)
  then show ?thesis by (simp add: infer_user_id_def load_private_key_def fst_io_bind)
next
  case (Inr k)
  let ?tr = "fst (match_public_keys w k (rglob w public_keys_folder ''*.pem''))"
  have tr: "fst (infer_user_id w private_key_path public_keys_folder)
              = LoadPrivateKey private_key_path # Rglob public_keys_folder ''*.pem'' # ?tr"
    using Inr by (simp add: infer_user_id_def load_private_key_def fst_io_bind emit_def)
  from public_key_loads_only [OF match_public_keys_events [of w k "rglob w public_keys_folder ''*.pem''"]]
  have "key_loads ?tr = []" "key_scans ?tr = []" "written ?tr = []" "\<forall>ev \<in> set ?tr. \<not> record_event ev"
    by simp_all
  with Inr show ?thesis unfolding tr by simp
qed

lemma find_Some_member:
  "find P xs = Some x \<Longrightarrow> x \<in> set xs \<and> P x"
  by (induction xs) (simp_all split: if_splits)

lemma find_unique:
  "p \<in> set xs \<Longrightarrow> P p \<Longrightarrow> \<forall>q \<in> set xs. P q \<longrightarrow> q = p \<Longrightarrow> find P xs = Some p"
proof (induction xs)
  case Nil
  then show ?case by simp
next
  case (Cons a xs)
  show ?case
  proof (cases "P a")
    case True
    with Cons.prems(3) have "a = p" by simp
    with True show ?thesis by simp
  next
    case False
    with Cons.prems(1,2) have "p \<in> set xs" by auto
    moreover from Cons.prems(3) have "\<forall>q \<in> set xs. P q \<longrightarrow> q = p" by simp
    ultimately have "find P xs = Some p" using Cons.prems(2) by (intro Cons.IH)
    with False show ?thesis by simp
  qed
qed

lemma candidate_matches_rglob_update [simp]:
  "candidate_matches (w \<lparr> rglob := g \<rparr>) = candidate_matches w"
  by (rule ext)+ (simp add: candidate_matches_def)

lemma io_of_events: "\<forall>ev \<in> set (fst (io_of r)). P ev"
  by (simp add: io_of_def)

lemma read_json_events: "P (ReadJson file) \<Longrightarrow> \<forall>ev \<in> set (fst (read_json w file)). P ev"
  by (simp add: read_json_def)

lemma read_text_events: "P (ReadText file) \<Longrightarrow> \<forall>ev \<in> set (fst (read_text w file)). P ev"
  by (simp add: read_text_def)

lemma print_line_events: "P (Print msg) \<Longrightarrow> \<forall>ev \<in> set (fst (print_line w msg)). P ev"
  by (simp add: print_line_def split: option.splits)

lemma save_reconstructed_events:
  assumes "P (OpenWrite (joinpath reconstructed_folder (path_stem r @ ''_reconstructed.txt'')))"
    and "P (WriteText (joinpath reconstructed_folder (path_stem r @ ''_reconstructed.txt'')) text)"
    and "P (Print (''Reconstructed text saved to ''
                     @ joinpath reconstructed_folder (path_stem r @ ''_reconstructed.txt'')))"
  shows "\<forall>ev \<in> set (fst (save_reconstructed w reconstructed_folder r text)). P ev"
proof -
  let ?out = "joinpath reconstructed_folder (path_stem r @ ''_reconstructed.txt'')"
  show ?thesis
  proof (cases "open_error w ?out")
    case (Some e)
    then show ?thesis by (simp add: save_reconstructed_def Let_def)
  next
    case None
    show ?thesis
    proof (cases "write_error w ?out text")
      case (Some e)
      with None assms(1) show ?thesis by (simp add: save_reconstructed_def Let_def)
    next
      case n: None
      have "\<forall>ev \<in> set (fst (io_bind ([OpenWrite ?out, WriteText ?out text], Inr ())
               (\<lambda>_. print_line w (''Reconstructed text saved to '' @ ?out)))). P ev"
        by (rule io_bind_events) (use assms in \<open>simp_all add: print_line_events\<close>)
      with None n show ?thesis by (simp add: save_reconstructed_def Let_def)
    qed
  qed
qed

lemma try_response_file_all:
  assumes "\<And>file. P (ReadJson file)" and "\<And>file. P (ReadText file)"
    and "P (OpenWrite (joinpath reconstructed_folder (path_stem r @ ''_reconstructed.txt'')))"
    and "\<And>text. P (WriteText (joinpath reconstructed_folder
                       (path_stem r @ ''_reconstructed.txt'')) text)"
    and "\<And>msg. \<not> prefix ''Error processing '' msg \<Longrightarrow> P (Print msg)"
  shows "\<forall>ev \<in> set (fst (try_response_file w lib output_folder reconstructed_folder
           private_key user_id r)). P ev"
proof -
  have saved: "P (Print (''Reconstructed text saved to '' @ x))" for x
    by (rule assms(5)) simp
  have skipped: "P (Print (''Mapping file not found for '' @ x))" for x
    by (rule assms(5)) simp
  have unsupported: "P (Print (''Unsupported file type: '' @ x))" for x
    by (rule assms(5)) simp
  note leaves = io_of_events read_json_events read_text_events print_line_events
    save_reconstructed_events assms(1-4) saved skipped unsupported
  show ?thesis
  proof (cases "path_suffix r = ''.json''")
    case True
    show ?thesis
      unfolding try_response_file_def if_P [OF True] by (intro io_bind_events leaves)
  next
    case False
    show ?thesis
    proof (cases "path_suffix r = ''.txt''")
      case is_txt: True
      have "\<forall>ev \<in> set (fst (io_bind (read_text w (path_str r)) (\<lambda>reworked_text.
              if \<not> file_exists w (joinpath output_folder (path_stem r @ ''_processed.json''))
              then print_line w (''Mapping file not found for '' @ path_str r @ ''. Skipping...'')
              else io_bind (read_json w (joinpath output_folder
                              (path_stem r @ ''_processed.json''))) (\<lambda>mapping_data.
                   io_bind (io_of (subscript (encrypted_mapping mapping_data)
                              ''encrypted_mapping'')) (\<lambda>encrypted.
                   io_bind (io_of (hybrid_decrypt lib encrypted private_key user_id))
                     (\<lambda>entity_mapping.
                   save_reconstructed w reconstructed_folder r
                     (reconstruct_text reworked_text entity_mapping))))))). P ev"
      proof (rule io_bind_events)
        show "\<forall>ev \<in> set (fst (read_text w (path_str r))). P ev" by (intro leaves)
      next
        fix reworked_text
        show "\<forall>ev \<in> set (fst (
              if \<not> file_exists w (joinpath output_folder (path_stem r @ ''_processed.json''))
              then print_line w (''Mapping file not found for '' @ path_str r @ ''. Skipping...'')
              else io_bind (read_json w (joinpath output_folder
                              (path_stem r @ ''_processed.json''))) (\<lambda>mapping_data.
                   io_bind (io_of (subscript (encrypted_mapping mapping_data)
                              ''encrypted_mapping'')) (\<lambda>encrypted.
                   io_bind (io_of (hybrid_decrypt lib encrypted private_key user_id))
                     (\<lambda>entity_mapping.
                   save_reconstructed w reconstructed_folder r
                     (reconstruct_text reworked_text entity_mapping)))))). P ev"
        proof (cases "\<not> file_exists w (joinpath output_folder
                                (path_stem r @ ''_processed.json''))")
          case True
          show ?thesis unfolding if_P [OF True] by (intro leaves)
        next
          case False
          show ?thesis unfolding if_not_P [OF False] by (intro io_bind_events leaves)
        qed
      qed
      then show ?thesis
        unfolding try_response_file_def Let_def if_not_P [OF False] if_P [OF is_txt] .
    next
      case other: False
      have "\<forall>ev \<in> set (fst (print_line w
              (''Unsupported file type: '' @ path_str r @ ''. Skipping...''))). P ev"
        by (intro leaves)
      then show ?thesis
        unfolding try_response_file_def if_not_P [OF False] if_not_P [OF other] .
    qed
  qed
qed

lemma try_response_file_events:
  "\<forall>ev \<in> set (fst (try_response_file w lib output_folder reconstructed_folder private_key
      user_id r)). record_event ev"
  by (rule try_response_file_all) simp_all

lemma try_response_file_no_error_report:
  "error_reports (fst (try_response_file w lib output_folder reconstructed_folder private_key
      user_id r)) = []"
  by (rule no_report_events) (rule try_response_file_all, simp_all)

lemma try_response_file_other_files:
  "f \<noteq> joinpath reconstructed_folder (path_stem r @ ''_reconstructed.txt'') \<Longrightarrow>
     file_content (fst (try_response_file w lib output_folder reconstructed_folder private_key
       user_id r)) f = None"
  by (rule no_content_events) (rule try_response_file_all, simp_all)

lemma try_response_file_corrupt_envelope:
  "path_suffix r = ''.json'' \<Longrightarrow> json_file w (path_str r) = Inr data \<Longrightarrow>
   anonymized_text data = Some text \<Longrightarrow> encrypted_mapping data = Some encrypted \<Longrightarrow>
   hybrid_decrypt lib encrypted private_key user_id = Inl e \<Longrightarrow>
     try_response_file w lib output_folder reconstructed_folder private_key user_id r
       = ([ReadJson (path_str r)], Inl e)"
  by (simp add: try_response_file_def io_bind_def read_json_def io_of_def subscript_def)

lemma process_response_file_events:
  "\<forall>ev \<in> set (fst (process_response_file w lib output_folder reconstructed_folder private_key
      user_id r)). record_event ev"
proof -
  obtain tr res where t: "try_response_file w lib output_folder reconstructed_folder private_key
      user_id r = (tr, res)" by (cases "try_response_file w lib output_folder
        reconstructed_folder private_key user_id r")
  from try_response_file_events [of w lib output_folder reconstructed_folder private_key user_id r] t
  have "\<forall>ev \<in> set tr. record_event ev" by simp
  with t show ?thesis
    by (cases res)
       (auto simp: process_response_file_def io_bind_def print_line_def split: option.splits)
qed

lemma process_response_file_other_files:
  assumes "f \<noteq> joinpath reconstructed_folder (path_stem r @ ''_reconstructed.txt'')"
  shows "file_content (fst (process_response_file w lib output_folder reconstructed_folder
           private_key user_id r)) f = None"
proof -
  obtain tr res where t: "try_response_file w lib output_folder reconstructed_folder private_key
      user_id r = (tr, res)" by (cases "try_response_file w lib output_folder
        reconstructed_folder private_key user_id r")
  from try_response_file_other_files [OF assms, of w lib output_folder private_key user_id] t
  have "file_content tr f = None" by simp
  with t show ?thesis
    by (cases res)
       (auto simp: process_response_file_def io_bind_def print_line_def file_content_append
          split: option.splits)
qed

lemma process_response_file_failure:
  assumes "snd (try_response_file w lib output_folder reconstructed_folder private_key user_id r)
             = Inl e"
    and "print_error w (''Error processing '' @ path_str r @ '': '' @ exn_str e) = None"
  shows "process_response_file w lib output_folder reconstructed_folder private_key user_id r
         = (fst (try_response_file w lib output_folder reconstructed_folder private_key
                   user_id r)
              @ [Print (''Error processing '' @ path_str r @ '': '' @ exn_str e)], Inr ())"
proof -
  obtain tr where t: "try_response_file w lib output_folder reconstructed_folder private_key
      user_id r = (tr, Inl e)"
    using assms(1) by (cases "try_response_file w lib output_folder
        reconstructed_folder private_key user_id r") simp
  with assms(2) show ?thesis
    by (simp add: process_response_file_def io_bind_def print_line_def del: append.simps)
qed

lemma process_response_file_saved:
  assumes "try_response_file w lib output_folder reconstructed_folder private_key user_id r
             = (tr, Inr ())"
  shows "process_response_file w lib output_folder reconstructed_folder private_key user_id r
           = (tr, Inr ())"
    and "error_reports tr = []"
proof -
  from assms show "process_response_file w lib output_folder reconstructed_folder private_key
      user_id r = (tr, Inr ())" by (simp add: process_response_file_def)
  from try_response_file_no_error_report [of w lib output_folder reconstructed_folder
      private_key user_id r] assms
  show "error_reports tr = []" by simp
qed

lemma process_files_append:
  "process_files w lib output_folder reconstructed_folder private_key user_id (xs @ ys)
     = io_bind (process_files w lib output_folder reconstructed_folder private_key user_id xs)
         (\<lambda>_. process_files w lib output_folder reconstructed_folder private_key user_id ys)"
  by (induction xs) (simp_all add: io_bind_return io_bind_assoc)

lemma process_files_events:
  "\<forall>ev \<in> set (fst (process_files w lib output_folder reconstructed_folder private_key
      user_id rs)). record_event ev"
proof (induction rs)
  case Nil
  show ?case by simp
next
  case (Cons r rs)
  show ?case
    unfolding process_files.simps
    by (rule io_bind_events) (rule process_response_file_events, rule Cons.IH)
qed

lemma process_response_files_run:
  assumes "rglob w response_folder ''*'' \<noteq> []"
    and "snd (infer_user_id w private_key_path public_keys_folder) = Inr user_id"
    and "pem_private_key w private_key_path = Inr private_key"
  shows "process_response_files w lib response_folder output_folder reconstructed_folder
           private_key_path public_keys_folder
         = ([MakeDirs reconstructed_folder, Rglob response_folder ''*'']
              @ fst (infer_user_id w private_key_path public_keys_folder)
              @ [LoadPrivateKey private_key_path]
              @ fst (process_files w lib output_folder reconstructed_folder private_key user_id
                  (rglob w response_folder ''*'')),
            snd (process_files w lib output_folder reconstructed_folder private_key user_id
                  (rglob w response_folder ''*'')))"
proof -
  obtain tr where i: "infer_user_id w private_key_path public_keys_folder = (tr, Inr user_id)"
    using assms(2) by (cases "infer_user_id w private_key_path public_keys_folder") simp
  obtain tl rl where l: "process_files w lib output_folder reconstructed_folder private_key
      user_id (rglob w response_folder ''*'') = (tl, rl)"
    by (cases "process_files w lib output_folder reconstructed_folder private_key
      user_id (rglob w response_folder ''*'')")
  with i assms(1,3) show ?thesis
    by (simp add: process_response_files_def io_bind_def emit_def load_private_key_def Let_def)
qed

lemma process_response_files_abort:
  assumes "rglob w response_folder ''*'' \<noteq> []"
    and "snd (infer_user_id w private_key_path public_keys_folder) = Inl e"
  shows "process_response_files w lib response_folder output_folder reconstructed_folder
           private_key_path public_keys_folder
         = ([MakeDirs reconstructed_folder, Rglob response_folder ''*'']
              @ fst (infer_user_id w private_key_path public_keys_folder), Inl e)"
proof -
  obtain tr where i: "infer_user_id w private_key_path public_keys_folder = (tr, Inl e)"
    using assms(2) by (cases "infer_user_id w private_key_path public_keys_folder") simp
  with assms(1) show ?thesis
    by (simp add: process_response_files_def io_bind_def emit_def Let_def)
qed

section \<open>Claims about \<open>hybrid_decrypt\<close>\<close>

text \<open>
  C3. When the user id is not a key of the \<open>encrypted_aes_keys\<close> mapping of the
  envelope, \<open>hybrid_decrypt\<close> fails with the error of its membership check, the
  \<open>ValueError\<close> whose message names the user id, and not with the error of a
  decryption step.
\<close>

theorem hybrid_decrypt_missing_identity:
  assumes "encrypted_aes_keys encrypted_package = Some keys" and "user_id \<notin> dom keys"
  shows "hybrid_decrypt lib encrypted_package private_key user_id
           = Inl (Exn ''ValueError'' (''No encrypted AES key found for user ID: '' @ user_id))"
  using assms by (simp add: hybrid_decrypt_def bind_exn_def subscript_def domIff)

theorem hybrid_decrypt_missing_identity_witness:
  "encrypted_aes_keys good_envelope = Some [''alice'' \<mapsto> ''a2V5'', ''bob'' \<mapsto> ''aXY='']
   \<and> ''carol'' \<notin> dom [''alice'' \<mapsto> ''a2V5'', ''bob'' \<mapsto> ''aXY='']
   \<and> hybrid_decrypt toy_lib good_envelope alice_key ''carol''
         = Inl (Exn ''ValueError'' ''No encrypted AES key found for user ID: carol'')"
proof -
  have h1: "encrypted_aes_keys good_envelope = Some [''alice'' \<mapsto> ''a2V5'', ''bob'' \<mapsto> ''aXY='']"
    by (simp add: good_envelope_def)
  have h2: "''carol'' \<notin> dom [''alice'' \<mapsto> ''a2V5'', ''bob'' \<mapsto> ''aXY='']"
    by simp
  from hybrid_decrypt_missing_identity [OF h1 h2, of toy_lib alice_key] h1 h2
  show ?thesis by simp
qed

text \<open>
  C9. The membership check comes first: when the user id is not a key of
  \<open>encrypted_aes_keys\<close>, the missing-identity error is the result whatever the
  \<open>iv\<close> and \<open>encrypted_data\<close> fields hold (malformed Base64 or nothing at all),
  whatever the library functions for Base64 decoding and decryption would return, and
  whatever the private key is.
\<close>

theorem hybrid_decrypt_membership_first:
  assumes "encrypted_aes_keys encrypted_package = Some keys" and "user_id \<notin> dom keys"
  shows "hybrid_decrypt lib
             (encrypted_package \<lparr> iv := other_iv, encrypted_data := other_data \<rparr>)
             private_key user_id
           = Inl (Exn ''ValueError'' (''No encrypted AES key found for user ID: '' @ user_id))
         \<and> hybrid_decrypt lib'
             (encrypted_package \<lparr> iv := other_iv, encrypted_data := other_data \<rparr>)
             private_key' user_id
           = hybrid_decrypt lib encrypted_package private_key user_id"
  using assms by (simp add: hybrid_decrypt_def bind_exn_def subscript_def domIff)

theorem hybrid_decrypt_membership_first_witness:
  "encrypted_aes_keys good_envelope = Some [''alice'' \<mapsto> ''a2V5'', ''bob'' \<mapsto> ''aXY='']
   \<and> ''carol'' \<notin> dom [''alice'' \<mapsto> ''a2V5'', ''bob'' \<mapsto> ''aXY='']
   \<and> hybrid_decrypt toy_lib (good_envelope \<lparr> iv := Some ''%%%'', encrypted_data := None \<rparr>)
         alice_key ''carol''
       = Inl (Exn ''ValueError'' ''No encrypted AES key found for user ID: carol'')
   \<and> hybrid_decrypt (toy_lib \<lparr> b64decode := (\<lambda>s. Inr []) \<rparr>)
         (good_envelope \<lparr> iv := Some ''%%%'', encrypted_data := None \<rparr>)
         OtherPrivateKey ''carol''
       = hybrid_decrypt toy_lib good_envelope alice_key ''carol''"
proof -
  have h1: "encrypted_aes_keys good_envelope = Some [''alice'' \<mapsto> ''a2V5'', ''bob'' \<mapsto> ''aXY='']"
    by (simp add: good_envelope_def)
  have h2: "''carol'' \<notin> dom [''alice'' \<mapsto> ''a2V5'', ''bob'' \<mapsto> ''aXY='']"
    by simp
  note t = hybrid_decrypt_membership_first [OF h1 h2, of toy_lib None "Some ''%%%''"
      alice_key "toy_lib \<lparr> b64decode := (\<lambda>s. Inr []) \<rparr>" OtherPrivateKey]
  from t have a: "hybrid_decrypt toy_lib
      (good_envelope \<lparr> iv := Some ''%%%'', encrypted_data := None \<rparr>) alice_key ''carol''
       = Inl (Exn ''ValueError'' ''No encrypted AES key found for user ID: carol'')"
    by simp
  note b = t [THEN conjunct2]
  show ?thesis by (intro conjI h1 h2 a b)
qed

text \<open>
  C5, as stated: every failure of a step of \<open>hybrid_decrypt\<close> reaches the caller as
  one and the same decryption error, which does not tell a wrong key from a corrupted
  ciphertext. This fails: with an envelope whose wrapped key does not decrypt under
  the private key the caller gets the \<open>ValueError\<close> of the asymmetric step, and with
  an envelope whose ciphertext is corrupted the caller gets the \<open>UnicodeDecodeError\<close>
  of the decoding step.
\<close>

theorem hybrid_decrypt_uniform_error_counterexample:
  "hybrid_decrypt toy_lib wrong_key_envelope alice_key ''alice''
     = Inl (Exn ''ValueError'' ''Decryption failed'')
   \<and> hybrid_decrypt toy_lib corrupt_envelope alice_key ''alice'' = Inl utf8_error
   \<and> hybrid_decrypt toy_lib wrong_key_envelope alice_key ''alice''
       \<noteq> hybrid_decrypt toy_lib corrupt_envelope alice_key ''alice''"
  by (simp add: toy_defs run_defs)

text \<open>
  C5, amended: for an identity present in \<open>encrypted_aes_keys\<close>, \<open>hybrid_decrypt\<close>
  fails with \<open>e\<close> exactly when one of its steps fails with \<open>e\<close> after all earlier
  steps succeeded, in the order: Base64 decoding of the wrapped key, the asymmetric
  unwrap, reading and Base64 decoding of \<open>iv\<close>, reading and Base64 decoding of
  \<open>encrypted_data\<close>, the symmetric decryption, UTF-8 decoding, JSON parsing. The
  error of the failing step reaches the caller unchanged.
\<close>

theorem hybrid_decrypt_failure_is_step_failure:
  assumes "encrypted_aes_keys encrypted_package = Some keys" and "keys user_id = Some key_text"
  shows "hybrid_decrypt lib encrypted_package private_key user_id = Inl e \<longleftrightarrow>
     b64decode lib key_text = Inl e
   \<or> (\<exists>encrypted_aes_key. b64decode lib key_text = Inr encrypted_aes_key \<and>
        (rsa_oaep_decrypt lib private_key encrypted_aes_key = Inl e
       \<or> (\<exists>aes_key. rsa_oaep_decrypt lib private_key encrypted_aes_key = Inr aes_key \<and>
            (subscript (iv encrypted_package) ''iv'' = Inl e
           \<or> (\<exists>iv_text. iv encrypted_package = Some iv_text \<and>
                (b64decode lib iv_text = Inl e
               \<or> (\<exists>iv_bytes. b64decode lib iv_text = Inr iv_bytes \<and>
                    (subscript (encrypted_data encrypted_package) ''encrypted_data'' = Inl e
                   \<or> (\<exists>data_text. encrypted_data encrypted_package = Some data_text \<and>
                        (b64decode lib data_text = Inl e
                       \<or> (\<exists>encrypted_bytes. b64decode lib data_text = Inr encrypted_bytes \<and>
                            (aes_cfb_decrypt lib aes_key iv_bytes encrypted_bytes = Inl e
                           \<or> (\<exists>decrypted_data.
                                aes_cfb_decrypt lib aes_key iv_bytes encrypted_bytes
                                  = Inr decrypted_data \<and>
                                (utf8_decode lib decrypted_data = Inl e
                               \<or> (\<exists>decoded. utf8_decode lib decrypted_data = Inr decoded \<and>
                                    json_loads lib decoded = Inl e)))))))))))))))"
  using assms
  by (auto simp add: hybrid_decrypt_def bind_exn_def subscript_def split: sum.splits option.splits)

theorem hybrid_decrypt_failure_is_step_failure_witness:
  "encrypted_aes_keys corrupt_envelope = Some [''alice'' \<mapsto> ''a2V5'', ''bob'' \<mapsto> ''aXY='']
   \<and> [''alice'' \<mapsto> ''a2V5'', ''bob'' \<mapsto> ''aXY=''] ''alice'' = Some ''a2V5''
   \<and> utf8_decode toy_lib [0xff] = Inl utf8_error
   \<and> hybrid_decrypt toy_lib corrupt_envelope alice_key ''alice'' = Inl utf8_error"
proof -
  have h1: "encrypted_aes_keys corrupt_envelope
              = Some [''alice'' \<mapsto> ''a2V5'', ''bob'' \<mapsto> ''aXY='']"
    by (simp add: corrupt_envelope_def good_envelope_def)
  have h2: "[''alice'' \<mapsto> ''a2V5'', ''bob'' \<mapsto> ''aXY=''] ''alice'' = Some ''a2V5''"
    by simp
  have u: "utf8_decode toy_lib [0xff] = Inl utf8_error"
    by (simp add: toy_lib_def)
  have steps: "b64decode toy_lib ''a2V5'' = Inr [0x6b, 0x65, 0x79]"
    "rsa_oaep_decrypt toy_lib alice_key [0x6b, 0x65, 0x79] = Inr (replicate 16 0x2a)"
    "iv corrupt_envelope = Some ''aXY=''"
    "b64decode toy_lib ''aXY='' = Inr [0x69, 0x76]"
    "encrypted_data corrupt_envelope = Some ''ZGF0WQ==''"
    "b64decode toy_lib ''ZGF0WQ=='' = Inr [0x64, 0x61, 0x74, 0x59]"
    "aes_cfb_decrypt toy_lib (replicate 16 0x2a) [0x69, 0x76] [0x64, 0x61, 0x74, 0x59] = Inr [0xff]"
    by (simp_all add: toy_lib_def corrupt_envelope_def good_envelope_def)
  note t = hybrid_decrypt_failure_is_step_failure [OF h1 h2, of toy_lib alice_key utf8_error]
  have "hybrid_decrypt toy_lib corrupt_envelope alice_key ''alice'' = Inl utf8_error"
    using t steps u by blast
  with h1 h2 u show ?thesis by (intro conjI)
qed

section \<open>Claims about identity resolution\<close>

text \<open>
  C1. With the private key loaded, \<open>infer_user_id\<close> returns the stem of the first
  file of the catalog that matches, in scan order, and fails with the \<open>ValueError\<close>
  \<open>No matching public key found for the provided private key.\<close> when no file
  matches; files that do not parse and keys without a modulus never match. So a
  returned identity is that of a candidate whose modulus equals the modulus of the
  private key; when exactly one candidate matches, its identity is returned, also
  for any reordering of the catalog; and without a match the call fails.
\<close>

theorem infer_user_id_first_match:
  assumes key: "pem_private_key w private_key_path = Inr private_key"
    and cat: "rglob w public_keys_folder ''*.pem'' = catalog"
  shows "snd (infer_user_id w private_key_path public_keys_folder) =
           (case find (candidate_matches w private_key) catalog of
              Some p \<Rightarrow> Inr (path_stem p)
            | None \<Rightarrow> Inl (Exn ''ValueError''
                ''No matching public key found for the provided private key.''))
     \<and> (snd (infer_user_id w private_key_path public_keys_folder) = Inr user_id \<longrightarrow>
          (\<exists>p \<in> set catalog. candidate_matches w private_key p \<and> path_stem p = user_id))
     \<and> (p \<in> set catalog \<and> candidate_matches w private_key p
          \<and> (\<forall>q \<in> set catalog. candidate_matches w private_key q \<longrightarrow> q = p)
          \<and> set reordered = set catalog \<longrightarrow>
            snd (infer_user_id w private_key_path public_keys_folder) = Inr (path_stem p)
          \<and> snd (infer_user_id (w \<lparr> rglob := (\<lambda>folder pattern. reordered) \<rparr>)
                   private_key_path public_keys_folder) = Inr (path_stem p))
     \<and> ((\<forall>q \<in> set catalog. \<not> candidate_matches w private_key q) \<longrightarrow>
          snd (infer_user_id w private_key_path public_keys_folder)
            = Inl (Exn ''ValueError''
                ''No matching public key found for the provided private key.''))"
proof -
  let ?no = "Inl (Exn ''ValueError''
                ''No matching public key found for the provided private key.'') :: exn + string"
  have first: "snd (infer_user_id w private_key_path public_keys_folder) =
           (case find (candidate_matches w private_key) catalog of
              Some p \<Rightarrow> Inr (path_stem p) | None \<Rightarrow> ?no)"
    using key cat by (simp add: infer_user_id_snd match_public_keys_find)
  have sound: "\<exists>p \<in> set catalog. candidate_matches w private_key p \<and> path_stem p = user_id"
    if "snd (infer_user_id w private_key_path public_keys_folder) = Inr user_id"
  proof (cases "find (candidate_matches w private_key) catalog")
    case None
    with first that show ?thesis by simp
  next
    case (Some q)
    with first that have "path_stem q = user_id" by simp
    moreover from find_Some_member [OF Some]
    have "q \<in> set catalog" "candidate_matches w private_key q" by simp_all
    ultimately show ?thesis by (intro bexI [of _ q]) simp_all
  qed
  have unique: "snd (infer_user_id w private_key_path public_keys_folder) = Inr (path_stem p)
          \<and> snd (infer_user_id (w \<lparr> rglob := (\<lambda>folder pattern. reordered) \<rparr>)
                   private_key_path public_keys_folder) = Inr (path_stem p)"
    if "p \<in> set catalog \<and> candidate_matches w private_key p
          \<and> (\<forall>q \<in> set catalog. candidate_matches w private_key q \<longrightarrow> q = p)
          \<and> set reordered = set catalog"
  proof -
    from that have p1: "p \<in> set catalog" and p2: "candidate_matches w private_key p"
      and p3: "\<forall>q \<in> set catalog. candidate_matches w private_key q \<longrightarrow> q = p"
      and p4: "set reordered = set catalog" by simp_all
    from p1 p2 p3 have "find (candidate_matches w private_key) catalog = Some p"
      by (rule find_unique)
    with first have a: "snd (infer_user_id w private_key_path public_keys_folder)
                          = Inr (path_stem p)" by simp
    from p1 p2 p3 have "find (candidate_matches w private_key) reordered = Some p"
      unfolding p4 [symmetric] by (rule find_unique)
    moreover have "pem_private_key (w \<lparr> rglob := (\<lambda>folder pattern. reordered) \<rparr>) private_key_path
                     = Inr private_key" using key by simp
    ultimately have "snd (infer_user_id (w \<lparr> rglob := (\<lambda>folder pattern. reordered) \<rparr>)
                   private_key_path public_keys_folder) = Inr (path_stem p)"
      by (simp add: infer_user_id_snd match_public_keys_find)
    with a show ?thesis by simp
  qed
  have none: "snd (infer_user_id w private_key_path public_keys_folder) = ?no"
    if "\<forall>q \<in> set catalog. \<not> candidate_matches w private_key q"
  proof -
    from that have "find (candidate_matches w private_key) catalog = None"
      by (simp add: find_None_iff)
    with first show ?thesis by simp
  qed
  show ?thesis
  proof (intro conjI impI)
    show "snd (infer_user_id w private_key_path public_keys_folder) =
           (case find (candidate_matches w private_key) catalog of
              Some p \<Rightarrow> Inr (path_stem p) | None \<Rightarrow> ?no)"
      by (rule first)
  next
    assume "snd (infer_user_id w private_key_path public_keys_folder) = Inr user_id"
    then show "\<exists>p \<in> set catalog. candidate_matches w private_key p \<and> path_stem p = user_id"
      by (rule sound)
  next
    assume h: "p \<in> set catalog \<and> candidate_matches w private_key p
          \<and> (\<forall>q \<in> set catalog. candidate_matches w private_key q \<longrightarrow> q = p)
          \<and> set reordered = set catalog"
    from unique [OF h]
    show "snd (infer_user_id w private_key_path public_keys_folder) = Inr (path_stem p)"
      by (rule conjunct1)
    from unique [OF h]
    show "snd (infer_user_id (w \<lparr> rglob := (\<lambda>folder pattern. reordered) \<rparr>)
                   private_key_path public_keys_folder) = Inr (path_stem p)"
      by (rule conjunct2)
  next
    assume "\<forall>q \<in> set catalog. \<not> candidate_matches w private_key q"
    then show "snd (infer_user_id w private_key_path public_keys_folder) = ?no"
      by (rule none)
  qed
qed

theorem infer_user_id_first_match_witness:
  "pem_private_key toy_world ''private_key.pem'' = Inr alice_key
   \<and> rglob toy_world ''public_keys'' ''*.pem'' = public_keys_catalog
   \<and> candidate_matches toy_world alice_key (Path ''public_keys/alice.pem'' ''alice'' ''.pem'')
   \<and> snd (infer_user_id toy_world ''private_key.pem'' ''public_keys'') = Inr ''alice''
   \<and> snd (infer_user_id (toy_world \<lparr> rglob := (\<lambda>folder pattern. rev public_keys_catalog) \<rparr>)
            ''private_key.pem'' ''public_keys'') = Inr ''alice''
   \<and> pem_private_key toy_world ''carol_key.pem'' = Inr (RSAPrivateKey 2773 17)
   \<and> \<not> candidate_matches toy_world (RSAPrivateKey 2773 17)
         (Path ''public_keys/bob.pem'' ''bob'' ''.pem'')
   \<and> \<not> candidate_matches toy_world (RSAPrivateKey 2773 17)
         (Path ''public_keys/notes.pem'' ''notes'' ''.pem'')
   \<and> \<not> candidate_matches toy_world (RSAPrivateKey 2773 17)
         (Path ''public_keys/alice.pem'' ''alice'' ''.pem'')
   \<and> snd (infer_user_id toy_world ''carol_key.pem'' ''public_keys'')
       = Inl (Exn ''ValueError'' ''No matching public key found for the provided private key.'')"
proof -
  let ?alice = "Path ''public_keys/alice.pem'' ''alice'' ''.pem''"
  have k1: "pem_private_key toy_world ''private_key.pem'' = Inr alice_key"
    by (simp add: toy_world_def)
  have k2: "pem_private_key toy_world ''carol_key.pem'' = Inr (RSAPrivateKey 2773 17)"
    by (simp add: toy_world_def)
  have c: "rglob toy_world ''public_keys'' ''*.pem'' = public_keys_catalog"
    by (simp add: toy_world_def)
  have m1: "?alice \<in> set public_keys_catalog"
    by (simp add: public_keys_catalog_def)
  have m2: "candidate_matches toy_world alice_key ?alice"
    by (simp add: candidate_matches_def same_modulus_def toy_world_def alice_key_def)
  have m3: "\<forall>q \<in> set public_keys_catalog. candidate_matches toy_world alice_key q \<longrightarrow> q = ?alice"
    by (simp add: public_keys_catalog_def candidate_matches_def same_modulus_def toy_world_def
          alice_key_def)
  have m4: "set (rev public_keys_catalog) = set public_keys_catalog"
    by (simp only: set_rev)
  have n: "\<forall>q \<in> set public_keys_catalog. \<not> candidate_matches toy_world (RSAPrivateKey 2773 17) q"
    by (simp add: public_keys_catalog_def candidate_matches_def same_modulus_def toy_world_def)
  note a = infer_user_id_first_match [OF k1 c, of "''alice''" ?alice "rev public_keys_catalog"]
  note b = infer_user_id_first_match [OF k2 c, of "''alice''" ?alice "rev public_keys_catalog"]
  note m = conjI [OF m1 conjI [OF m2 conjI [OF m3 m4]]]
  have r1: "snd (infer_user_id toy_world ''private_key.pem'' ''public_keys'') = Inr ''alice''
    \<and> snd (infer_user_id (toy_world \<lparr> rglob := (\<lambda>folder pattern. rev public_keys_catalog) \<rparr>)
            ''private_key.pem'' ''public_keys'') = Inr ''alice''"
    using a [THEN conjunct2, THEN conjunct2, THEN conjunct1, THEN mp, OF m] by simp
  have r2: "snd (infer_user_id toy_world ''carol_key.pem'' ''public_keys'')
       = Inl (Exn ''ValueError'' ''No matching public key found for the provided private key.'')"
    using b [THEN conjunct2, THEN conjunct2, THEN conjunct2, THEN mp, OF n] .
  from n have n1: "\<not> candidate_matches toy_world (RSAPrivateKey 2773 17)
         (Path ''public_keys/bob.pem'' ''bob'' ''.pem'')"
    and n2: "\<not> candidate_matches toy_world (RSAPrivateKey 2773 17)
         (Path ''public_keys/notes.pem'' ''notes'' ''.pem'')"
    and n3: "\<not> candidate_matches toy_world (RSAPrivateKey 2773 17)
         (Path ''public_keys/alice.pem'' ''alice'' ''.pem'')"
    by (simp_all add: public_keys_catalog_def)
  show ?thesis
    by (intro conjI k1 k2 c m2 n1 n2 n3 r1 [THEN conjunct1] r1 [THEN conjunct2] r2)
qed

section \<open>Claims about the batch processor\<close>

text \<open>
  C4, as stated: a failure while processing one record does not abort the run or affect
  the outputs of the other records. This fails in two ways. When the error report of the
  failing record cannot be printed, the exception of the handler's \<open>print\<close> ends the
  run: the third record of the example is not processed, though it is in the batch
  without the second. And a record that fails while its text is written has opened its
  output file, which is left empty: \<open>record_d\<close> has the stem of \<open>record_c\<close>, so the
  output of \<open>record_c\<close> is lost, while the run goes on.
\<close>

theorem batch_isolation_counterexample:
  "snd (try_response_file unprintable_world toy_lib ''output'' ''reconstructed'' alice_key
          ''alice'' record_b) = Inl utf8_error
   \<and> snd (process_files unprintable_world toy_lib ''output'' ''reconstructed'' alice_key
          ''alice'' [record_a, record_b, record_c]) = Inl encode_error
   \<and> written (fst (process_files unprintable_world toy_lib ''output'' ''reconstructed''
          alice_key ''alice'' [record_a, record_b, record_c]))
       = [(''reconstructed/a_reconstructed.txt'', ''Hello Alice, from Acme'')]
   \<and> written (fst (process_files unprintable_world toy_lib ''output'' ''reconstructed''
          alice_key ''alice'' [record_a, record_c]))
       = [(''reconstructed/a_reconstructed.txt'', ''Hello Alice, from Acme''),
          (''reconstructed/c_reconstructed.txt'', ''Acme thanks Alice'')]
   \<and> snd (try_response_file toy_world toy_lib ''output'' ''reconstructed'' alice_key
          ''alice'' record_d) = Inl encode_error
   \<and> snd (process_files toy_world toy_lib ''output'' ''reconstructed'' alice_key ''alice''
          [record_c, record_d]) = Inr ()
   \<and> file_content (fst (process_files toy_world toy_lib ''output'' ''reconstructed''
          alice_key ''alice'' [record_c, record_d])) ''reconstructed/c_reconstructed.txt''
       = Some []
   \<and> file_content (fst (process_files toy_world toy_lib ''output'' ''reconstructed''
          alice_key ''alice'' [record_c])) ''reconstructed/c_reconstructed.txt''
       = Some ''Acme thanks Alice''"
  by (simp add: toy_defs run_defs)

text \<open>
  C4, amended: when the processing of a record raises, at whatever step of the \<open>try\<close>
  body, and its error report is printed, the loop goes on. The error is reported once; the
  result of the loop is the result of the batch without this record; when the loop
  reaches the record, its trace is the trace of the records before it, then the trace of
  the failing record, then the trace of the records after it, and these are their traces
  in the batch without it; every file but the failing record's own output file has the
  content it has after the batch without it; and when the failing record wrote no file,
  the files written are those of the batch without it. A record whose envelope does not
  decrypt fails so: its trace is the reading of its file. In a batch of three records of
  which the first and third are saved and the second fails without writing, there are
  exactly two files written, those of the batch of the first and third alone, and one
  error report, and the loop ends without an exception. The result of the run is the
  result of the loop over the batch without the failing record.
\<close>

theorem batch_isolation:
  assumes fail: "snd (try_response_file w lib output_folder reconstructed_folder private_key
                   user_id failing) = Inl e"
    and report: "print_error w (''Error processing '' @ path_str failing @ '': '' @ exn_str e) = None"
  shows "process_response_file w lib output_folder reconstructed_folder private_key user_id failing
           = (fst (try_response_file w lib output_folder reconstructed_folder private_key
                user_id failing)
                @ [Print (''Error processing '' @ path_str failing @ '': '' @ exn_str e)], Inr ())
     \<and> error_reports (fst (process_response_file w lib output_folder reconstructed_folder
           private_key user_id failing))
           = [''Error processing '' @ path_str failing @ '': '' @ exn_str e]
     \<and> snd (process_files w lib output_folder reconstructed_folder private_key user_id
           (before @ failing # after))
           = snd (process_files w lib output_folder reconstructed_folder private_key user_id
               (before @ after))
     \<and> (snd (process_files w lib output_folder reconstructed_folder private_key user_id before)
            = Inr () \<longrightarrow>
          fst (process_files w lib output_folder reconstructed_folder private_key user_id
                 (before @ failing # after))
            = fst (process_files w lib output_folder reconstructed_folder private_key user_id before)
              @ fst (process_response_file w lib output_folder reconstructed_folder private_key
                  user_id failing)
              @ fst (process_files w lib output_folder reconstructed_folder private_key user_id
                  after)
          \<and> fst (process_files w lib output_folder reconstructed_folder private_key user_id
                 (before @ after))
            = fst (process_files w lib output_folder reconstructed_folder private_key user_id before)
              @ fst (process_files w lib output_folder reconstructed_folder private_key user_id
                  after))
     \<and> (f \<noteq> joinpath reconstructed_folder (path_stem failing @ ''_reconstructed.txt'') \<longrightarrow>
          file_content (fst (process_files w lib output_folder reconstructed_folder private_key
            user_id (before @ failing # after))) f
          = file_content (fst (process_files w lib output_folder reconstructed_folder private_key
              user_id (before @ after))) f)
     \<and> (written (fst (try_response_file w lib output_folder reconstructed_folder private_key
            user_id failing)) = [] \<longrightarrow>
          written (fst (process_files w lib output_folder reconstructed_folder private_key
            user_id (before @ failing # after)))
          = written (fst (process_files w lib output_folder reconstructed_folder private_key
              user_id (before @ after))))
     \<and> (path_suffix failing = ''.json'' \<and> json_file w (path_str failing) = Inr data
          \<and> anonymized_text data = Some anonymized \<and> encrypted_mapping data = Some encrypted
          \<and> hybrid_decrypt lib encrypted private_key user_id = Inl e' \<longrightarrow>
            e' = e
          \<and> fst (try_response_file w lib output_folder reconstructed_folder private_key
                user_id failing) = [ReadJson (path_str failing)])
     \<and> (try_response_file w lib output_folder reconstructed_folder private_key user_id first_record
            = (first_trace, Inr ()) \<and> written first_trace = [first_output]
          \<and> try_response_file w lib output_folder reconstructed_folder private_key user_id third_record
            = (third_trace, Inr ()) \<and> written third_trace = [third_output]
          \<and> written (fst (try_response_file w lib output_folder reconstructed_folder
                private_key user_id failing)) = [] \<longrightarrow>
            process_files w lib output_folder reconstructed_folder private_key user_id
              [first_record, failing, third_record]
              = (first_trace @ fst (try_response_file w lib output_folder reconstructed_folder
                     private_key user_id failing)
                   @ [Print (''Error processing '' @ path_str failing @ '': '' @ exn_str e)] @ third_trace,
                 Inr ())
          \<and> written (fst (process_files w lib output_folder reconstructed_folder private_key
                user_id [first_record, failing, third_record])) = [first_output, third_output]
          \<and> written (fst (process_files w lib output_folder reconstructed_folder private_key
                user_id [first_record, third_record])) = [first_output, third_output]
          \<and> error_reports (fst (process_files w lib output_folder reconstructed_folder
                private_key user_id [first_record, failing, third_record]))
              = [''Error processing '' @ path_str failing @ '': '' @ exn_str e])
     \<and> (rglob w response_folder ''*'' = before @ failing # after
          \<and> snd (infer_user_id w private_key_path public_keys_folder) = Inr user_id
          \<and> pem_private_key w private_key_path = Inr private_key \<longrightarrow>
            snd (process_response_files w lib response_folder output_folder reconstructed_folder
                   private_key_path public_keys_folder)
            = snd (process_files w lib output_folder reconstructed_folder private_key user_id
                (before @ after)))"
proof -
  let ?files = "process_files w lib output_folder reconstructed_folder private_key user_id"
  let ?file = "process_response_file w lib output_folder reconstructed_folder private_key user_id"
  let ?body = "try_response_file w lib output_folder reconstructed_folder private_key user_id"
  let ?msg = "''Error processing '' @ path_str failing @ '': '' @ exn_str e"
  let ?t2 = "fst (?body failing) @ [Print ?msg]"
  have A: "?file failing = (?t2, Inr ())"
    by (rule process_response_file_failure [OF fail report])
  have no: "error_reports (fst (?body failing)) = []"
    by (rule try_response_file_no_error_report)
  have F: "error_reports (fst (?file failing)) = [?msg]"
    unfolding A fst_conv error_reports_append no error_report_single by simp
  obtain a1 res1 where p1: "?files before = (a1, res1)" by (cases "?files before")
  obtain a3 res3 where p3: "?files after = (a3, res3)" by (cases "?files after")
  have with_r2: "?files (before @ failing # after)
      = (case res1 of Inl x \<Rightarrow> (a1, Inl x) | Inr u \<Rightarrow> (a1 @ ?t2 @ a3, res3))"
    unfolding process_files_append [of w lib output_folder reconstructed_folder private_key
        user_id before "failing # after"] process_files.simps A p1 p3
    by (simp add: io_bind_def split: sum.splits)
  have without_r2: "?files (before @ after)
      = (case res1 of Inl x \<Rightarrow> (a1, Inl x) | Inr u \<Rightarrow> (a1 @ a3, res3))"
    unfolding process_files_append p1 p3 by (simp add: io_bind_def split: sum.splits)
  have C: "snd (?files (before @ failing # after)) = snd (?files (before @ after))"
    unfolding with_r2 without_r2 by (cases res1) simp_all
  have D: "fst (?files (before @ failing # after)) = fst (?files before) @ fst (?file failing) @ fst (?files after)
          \<and> fst (?files (before @ after)) = fst (?files before) @ fst (?files after)"
    if "snd (?files before) = Inr ()"
    using that unfolding with_r2 without_r2 A p1 p3 by simp
  have E: "file_content (fst (?files (before @ failing # after))) f
             = file_content (fst (?files (before @ after))) f"
    if other: "f \<noteq> joinpath reconstructed_folder (path_stem failing @ ''_reconstructed.txt'')"
  proof -
    from process_response_file_other_files [OF other, of w lib output_folder private_key
        user_id] A
    have n: "file_content ?t2 f = None" by simp
    show ?thesis
    proof (cases res1)
      case (Inl x)
      then show ?thesis unfolding with_r2 without_r2 by simp
    next
      case (Inr u)
      have "file_content (a1 @ ?t2 @ a3) f = file_content (a1 @ a3) f"
        using n by (rule file_content_skip)
      with Inr show ?thesis unfolding with_r2 without_r2 by simp
    qed
  qed
  have G: "written (fst (?files (before @ failing # after))) = written (fst (?files (before @ after)))"
    if "written (fst (?body failing)) = []"
    using that unfolding with_r2 without_r2 by (cases res1) (simp_all add: written_append)
  have I: "e' = e \<and> fst (?body failing) = [ReadJson (path_str failing)]"
    if h: "path_suffix failing = ''.json'' \<and> json_file w (path_str failing) = Inr data
          \<and> anonymized_text data = Some anonymized \<and> encrypted_mapping data = Some encrypted
          \<and> hybrid_decrypt lib encrypted private_key user_id = Inl e'"
  proof -
    from h have "?body failing = ([ReadJson (path_str failing)], Inl e')"
      by (intro try_response_file_corrupt_envelope [of failing w data anonymized encrypted]) simp_all
    with fail show ?thesis by simp
  qed
  have H: "?files [first_record, failing, third_record] = (first_trace @ fst (?body failing) @ [Print ?msg] @ third_trace, Inr ())
          \<and> written (fst (?files [first_record, failing, third_record])) = [first_output, third_output]
          \<and> written (fst (?files [first_record, third_record])) = [first_output, third_output]
          \<and> error_reports (fst (?files [first_record, failing, third_record])) = [?msg]"
    if h: "?body first_record = (first_trace, Inr ()) \<and> written first_trace = [first_output]
          \<and> ?body third_record = (third_trace, Inr ()) \<and> written third_trace = [third_output]
          \<and> written (fst (?body failing)) = []"
  proof -
    from h have s1: "?body first_record = (first_trace, Inr ())" and s3: "?body third_record = (third_trace, Inr ())"
      and w1: "written first_trace = [first_output]" and w3: "written third_trace = [third_output]"
      and w2: "written (fst (?body failing)) = []" by simp_all
    note f1 = process_response_file_saved [OF s1]
    note f3 = process_response_file_saved [OF s3]
    have all: "?files [first_record, failing, third_record] = (first_trace @ ?t2 @ third_trace, Inr ())"
      by (simp add: f1(1) f3(1) A io_bind_def del: append.simps)
    have two: "?files [first_record, third_record] = (first_trace @ third_trace, Inr ())"
      by (simp add: f1(1) f3(1) io_bind_def)
    from all have all': "?files [first_record, failing, third_record]
        = (first_trace @ fst (?body failing) @ [Print ?msg] @ third_trace, Inr ())" by simp
    have c2: "written (fst (?files [first_record, failing, third_record])) = [first_output, third_output]"
      unfolding all fst_conv by (simp add: written_append w1 w2 w3)
    have c3: "written (fst (?files [first_record, third_record])) = [first_output, third_output]"
      unfolding two fst_conv by (simp add: written_append w1 w3)
    have c4: "error_reports (fst (?files [first_record, failing, third_record])) = [?msg]"
      unfolding all fst_conv error_reports_append f1(2) f3(2) no error_report_single by simp
    show ?thesis by (intro conjI all' c2 c3 c4)
  qed
  have J: "snd (process_response_files w lib response_folder output_folder
                   reconstructed_folder private_key_path public_keys_folder)
            = snd (?files (before @ after))"
    if h: "rglob w response_folder ''*'' = before @ failing # after
          \<and> snd (infer_user_id w private_key_path public_keys_folder) = Inr user_id
          \<and> pem_private_key w private_key_path = Inr private_key"
  proof -
    from h have ne: "rglob w response_folder ''*'' \<noteq> []" by simp
    from h have i: "snd (infer_user_id w private_key_path public_keys_folder) = Inr user_id"
      and k: "pem_private_key w private_key_path = Inr private_key"
      and g: "rglob w response_folder ''*'' = before @ failing # after" by simp_all
    note r = process_response_files_run [OF ne i k, of lib output_folder reconstructed_folder]
    show ?thesis unfolding r g snd_conv by (rule C)
  qed
  show ?thesis
  proof (intro conjI impI)
    show "?file failing = (?t2, Inr ())" by (rule A)
    show "error_reports (fst (?file failing)) = [?msg]" by (rule F)
    show "snd (?files (before @ failing # after)) = snd (?files (before @ after))" by (rule C)
  next
    assume a: "snd (?files before) = Inr ()"
    from D [OF a]
    show "fst (?files (before @ failing # after)) = fst (?files before) @ fst (?file failing) @ fst (?files after)"
      by (rule conjunct1)
    from D [OF a] show "fst (?files (before @ after)) = fst (?files before) @ fst (?files after)"
      by (rule conjunct2)
  next
    assume "f \<noteq> joinpath reconstructed_folder (path_stem failing @ ''_reconstructed.txt'')"
    then show "file_content (fst (?files (before @ failing # after))) f
             = file_content (fst (?files (before @ after))) f" by (rule E)
  next
    assume "written (fst (?body failing)) = []"
    then show "written (fst (?files (before @ failing # after))) = written (fst (?files (before @ after)))"
      by (rule G)
  next
    assume h: "path_suffix failing = ''.json'' \<and> json_file w (path_str failing) = Inr data
          \<and> anonymized_text data = Some anonymized \<and> encrypted_mapping data = Some encrypted
          \<and> hybrid_decrypt lib encrypted private_key user_id = Inl e'"
    from I [OF h] show "e' = e" by (rule conjunct1)
    from I [OF h] show "fst (?body failing) = [ReadJson (path_str failing)]" by (rule conjunct2)
  next
    assume h: "?body first_record = (first_trace, Inr ()) \<and> written first_trace = [first_output]
          \<and> ?body third_record = (third_trace, Inr ()) \<and> written third_trace = [third_output]
          \<and> written (fst (?body failing)) = []"
    from H [OF h] show "?files [first_record, failing, third_record] = (first_trace @ fst (?body failing) @ [Print ?msg] @ third_trace, Inr ())"
      by (rule conjunct1)
    from H [OF h] show "written (fst (?files [first_record, failing, third_record])) = [first_output, third_output]"
      by (rule conjunct2 [THEN conjunct1])
    from H [OF h] show "written (fst (?files [first_record, third_record])) = [first_output, third_output]"
      by (rule conjunct2 [THEN conjunct2, THEN conjunct1])
    from H [OF h] show "error_reports (fst (?files [first_record, failing, third_record])) = [?msg]"
      by (rule conjunct2 [THEN conjunct2, THEN conjunct2])
  next
    assume h: "rglob w response_folder ''*'' = before @ failing # after
          \<and> snd (infer_user_id w private_key_path public_keys_folder) = Inr user_id
          \<and> pem_private_key w private_key_path = Inr private_key"
    then show "snd (process_response_files w lib response_folder output_folder
                   reconstructed_folder private_key_path public_keys_folder)
            = snd (?files (before @ after))" by (rule J)
  qed
qed

theorem batch_isolation_witness:
  "snd (try_response_file toy_world toy_lib ''output'' ''reconstructed'' alice_key ''alice''
          record_b) = Inl utf8_error
   \<and> print_error toy_world
         (''Error processing '' @ path_str record_b @ '': '' @ exn_str utf8_error) = None
   \<and> fst (try_response_file toy_world toy_lib ''output'' ''reconstructed'' alice_key ''alice''
          record_b) = [ReadJson ''response/b.json'']
   \<and> written (fst (process_files toy_world toy_lib ''output'' ''reconstructed'' alice_key
        ''alice'' [record_a, record_b, record_c]))
       = [(''reconstructed/a_reconstructed.txt'', ''Hello Alice, from Acme''),
          (''reconstructed/c_reconstructed.txt'', ''Acme thanks Alice'')]
   \<and> written (fst (process_files toy_world toy_lib ''output'' ''reconstructed'' alice_key
        ''alice'' [record_a, record_c]))
       = [(''reconstructed/a_reconstructed.txt'', ''Hello Alice, from Acme''),
          (''reconstructed/c_reconstructed.txt'', ''Acme thanks Alice'')]
   \<and> error_reports (fst (process_files toy_world toy_lib ''output'' ''reconstructed''
        alice_key ''alice'' [record_a, record_b, record_c]))
       = [''Error processing '' @ path_str record_b @ '': '' @ exn_str utf8_error]
   \<and> snd (process_response_files toy_world toy_lib ''response'' ''output'' ''reconstructed''
        ''private_key.pem'' ''public_keys'') = Inr ()"
proof -
  let ?out1 = "(''reconstructed/a_reconstructed.txt'', ''Hello Alice, from Acme'')"
  let ?out3 = "(''reconstructed/c_reconstructed.txt'', ''Acme thanks Alice'')"
  let ?t1 = "[ReadJson ''response/a.json'', OpenWrite ''reconstructed/a_reconstructed.txt'',
              WriteText ''reconstructed/a_reconstructed.txt'' ''Hello Alice, from Acme'',
              Print ''Reconstructed text saved to reconstructed/a_reconstructed.txt'']"
  let ?t3 = "[ReadText ''response/c.txt'', ReadJson ''output/c_processed.json'',
              OpenWrite ''reconstructed/c_reconstructed.txt'',
              WriteText ''reconstructed/c_reconstructed.txt'' ''Acme thanks Alice'',
              Print ''Reconstructed text saved to reconstructed/c_reconstructed.txt'']"
  have fail: "snd (try_response_file toy_world toy_lib ''output'' ''reconstructed'' alice_key
          ''alice'' record_b) = Inl utf8_error"
    by (simp add: toy_defs run_defs)
  have report: "print_error toy_world
         (''Error processing '' @ path_str record_b @ '': '' @ exn_str utf8_error) = None"
    by (simp add: toy_world_def)
  have s1: "try_response_file toy_world toy_lib ''output'' ''reconstructed'' alice_key ''alice''
          record_a = (?t1, Inr ())"
    by (simp add: toy_defs run_defs)
  have s3: "try_response_file toy_world toy_lib ''output'' ''reconstructed'' alice_key ''alice''
          record_c = (?t3, Inr ())"
    by (simp add: toy_defs run_defs)
  have w1: "written ?t1 = [?out1]" by simp
  have w3: "written ?t3 = [?out3]" by simp
  have c: "path_suffix record_b = ''.json''
      \<and> json_file toy_world (path_str record_b)
          = Inr \<lparr> anonymized_text = Some ''Dear PERSON_1'',
                  encrypted_mapping = Some corrupt_envelope \<rparr>
      \<and> anonymized_text \<lparr> anonymized_text = Some ''Dear PERSON_1'',
                  encrypted_mapping = Some corrupt_envelope \<rparr> = Some ''Dear PERSON_1''
      \<and> encrypted_mapping \<lparr> anonymized_text = Some ''Dear PERSON_1'',
                  encrypted_mapping = Some corrupt_envelope \<rparr> = Some corrupt_envelope
      \<and> hybrid_decrypt toy_lib corrupt_envelope alice_key ''alice'' = Inl utf8_error"
    by (simp add: toy_defs run_defs)
  have g: "rglob toy_world ''response'' ''*'' = [record_a] @ record_b # [record_c]"
    by (simp add: toy_world_def)
  have i: "snd (infer_user_id toy_world ''private_key.pem'' ''public_keys'') = Inr ''alice''"
    by (simp add: toy_defs run_defs)
  have k: "pem_private_key toy_world ''private_key.pem'' = Inr alice_key"
    by (simp add: toy_world_def)
  note t = batch_isolation [OF fail report, where before = "[record_a]" and after = "[record_c]"
      and first_record = record_a and third_record = record_c
      and first_trace = ?t1 and third_trace = ?t3
      and first_output = ?out1 and third_output = ?out3
      and data = "\<lparr> anonymized_text = Some ''Dear PERSON_1'',
                  encrypted_mapping = Some corrupt_envelope \<rparr>"
      and anonymized = "''Dear PERSON_1''" and encrypted = corrupt_envelope and e' = utf8_error
      and response_folder = "''response''" and private_key_path = "''private_key.pem''"
      and public_keys_folder = "''public_keys''"]
  note rest = t [THEN conjunct2, THEN conjunct2, THEN conjunct2, THEN conjunct2,
      THEN conjunct2, THEN conjunct2]
  note corrupt = rest [THEN conjunct1, THEN mp, OF c, THEN conjunct2]
  have w2: "written (fst (try_response_file toy_world toy_lib ''output'' ''reconstructed''
      alice_key ''alice'' record_b)) = []"
    unfolding corrupt by simp
  note three = rest [THEN conjunct2, THEN conjunct1, THEN mp,
      OF conjI [OF s1 conjI [OF w1 conjI [OF s3 conjI [OF w3 w2]]]]]
  note run = rest [THEN conjunct2, THEN conjunct2, THEN mp, OF conjI [OF g conjI [OF i k]]]
  have b: "fst (try_response_file toy_world toy_lib ''output'' ''reconstructed'' alice_key
      ''alice'' record_b) = [ReadJson ''response/b.json'']"
    using corrupt by (simp add: record_b_def)
  have others: "snd (process_files toy_world toy_lib ''output'' ''reconstructed'' alice_key
      ''alice'' ([record_a] @ [record_c])) = Inr ()"
    by (simp add: toy_defs run_defs)
  have run': "snd (process_response_files toy_world toy_lib ''response'' ''output''
        ''reconstructed'' ''private_key.pem'' ''public_keys'') = Inr ()"
    using run unfolding others .
  show ?thesis
    by (intro conjI fail report b three [THEN conjunct2, THEN conjunct1]
          three [THEN conjunct2, THEN conjunct2, THEN conjunct1]
          three [THEN conjunct2, THEN conjunct2, THEN conjunct2] run')
qed

text \<open>
  C6, as stated: in a run over a non-empty collection the private key file is read and
  parsed exactly once. This fails: in the example run the key file is loaded twice.
\<close>

theorem single_key_load_counterexample:
  "rglob toy_world ''response'' ''*'' \<noteq> []
   \<and> key_loads (fst (process_response_files toy_world toy_lib ''response'' ''output''
        ''reconstructed'' ''private_key.pem'' ''public_keys''))
       = [''private_key.pem'', ''private_key.pem'']"
  by (simp add: toy_defs run_defs)

text \<open>
  C6, amended: in a run over a non-empty collection \<open>load_private_key\<close> is called
  once inside \<open>infer_user_id\<close> and, when the identity is resolved, a second time by
  \<open>process_response_files\<close> itself, so the key file is read and parsed twice in a run
  that reaches the records and once in a run that identity resolution ends. The
  public keys are scanned once. All of this precedes the processing of the first
  record: the events before the loop are no record events, and the loop loads no
  private key and scans no public keys.
\<close>

theorem key_loads_before_records:
  assumes "rglob w response_folder ''*'' \<noteq> []"
  shows "(snd (infer_user_id w private_key_path public_keys_folder) = Inr user_id \<longrightarrow>
            (\<exists>private_key. pem_private_key w private_key_path = Inr private_key
               \<and> process_response_files w lib response_folder output_folder reconstructed_folder
                    private_key_path public_keys_folder
                  = ([MakeDirs reconstructed_folder, Rglob response_folder ''*'']
                       @ fst (infer_user_id w private_key_path public_keys_folder)
                       @ [LoadPrivateKey private_key_path]
                       @ fst (process_files w lib output_folder reconstructed_folder
                           private_key user_id (rglob w response_folder ''*'')),
                     snd (process_files w lib output_folder reconstructed_folder
                           private_key user_id (rglob w response_folder ''*''))))
          \<and> key_loads (fst (process_response_files w lib response_folder output_folder
                 reconstructed_folder private_key_path public_keys_folder))
              = [private_key_path, private_key_path]
          \<and> key_scans (fst (process_response_files w lib response_folder output_folder
                 reconstructed_folder private_key_path public_keys_folder))
              = [public_keys_folder])
     \<and> (snd (infer_user_id w private_key_path public_keys_folder) = Inl e \<longrightarrow>
            snd (process_response_files w lib response_folder output_folder reconstructed_folder
                   private_key_path public_keys_folder) = Inl e
          \<and> key_loads (fst (process_response_files w lib response_folder output_folder
                 reconstructed_folder private_key_path public_keys_folder))
              = [private_key_path]
          \<and> written (fst (process_response_files w lib response_folder output_folder
                 reconstructed_folder private_key_path public_keys_folder)) = [])
     \<and> key_loads (fst (process_files w lib output_folder reconstructed_folder any_key any_id
           rs)) = []
     \<and> key_scans (fst (process_files w lib output_folder reconstructed_folder any_key any_id
           rs)) = []
     \<and> (\<forall>ev \<in> set ([MakeDirs reconstructed_folder, Rglob response_folder ''*'']
                       @ fst (infer_user_id w private_key_path public_keys_folder)
                       @ [LoadPrivateKey private_key_path]). \<not> record_event ev)"
proof -
  let ?run = "process_response_files w lib response_folder output_folder reconstructed_folder
                private_key_path public_keys_folder"
  let ?infer = "infer_user_id w private_key_path public_keys_folder"
  note tr = infer_user_id_trace [of w private_key_path public_keys_folder]
  have ok: "(\<exists>private_key. pem_private_key w private_key_path = Inr private_key
               \<and> ?run = ([MakeDirs reconstructed_folder, Rglob response_folder ''*'']
                       @ fst ?infer @ [LoadPrivateKey private_key_path]
                       @ fst (process_files w lib output_folder reconstructed_folder
                           private_key user_id (rglob w response_folder ''*'')),
                     snd (process_files w lib output_folder reconstructed_folder
                           private_key user_id (rglob w response_folder ''*''))))
          \<and> key_loads (fst ?run) = [private_key_path, private_key_path]
          \<and> key_scans (fst ?run) = [public_keys_folder]"
    if i: "snd ?infer = Inr user_id"
  proof -
    from infer_user_id_Inr [OF i] obtain private_key
      where k: "pem_private_key w private_key_path = Inr private_key" by blast
    note r = process_response_files_run [OF assms i k, of lib output_folder reconstructed_folder]
    from record_events_no_keys [OF process_files_events
        [of w lib output_folder reconstructed_folder private_key user_id
            "rglob w response_folder ''*''"]]
    have l: "key_loads (fst (process_files w lib output_folder reconstructed_folder private_key
               user_id (rglob w response_folder ''*''))) = []"
      "key_scans (fst (process_files w lib output_folder reconstructed_folder private_key
               user_id (rglob w response_folder ''*''))) = []" by simp_all
    from tr k have s: "key_loads (fst ?infer) = [private_key_path]"
      "key_scans (fst ?infer) = [public_keys_folder]" by simp_all
    have "key_loads (fst ?run) = [private_key_path, private_key_path]"
      unfolding r by (simp add: key_loads_append l s)
    moreover have "key_scans (fst ?run) = [public_keys_folder]"
      unfolding r by (simp add: key_scans_append l s)
    ultimately show ?thesis using k r by blast
  qed
  have bad: "snd ?run = Inl e \<and> key_loads (fst ?run) = [private_key_path]
          \<and> written (fst ?run) = []"
    if i: "snd ?infer = Inl e"
  proof -
    note r = process_response_files_abort [OF assms i, of lib output_folder reconstructed_folder]
    from tr show ?thesis unfolding r by (simp add: key_loads_append written_append)
  qed
  from record_events_no_keys [OF process_files_events
        [of w lib output_folder reconstructed_folder any_key any_id rs]]
  have loop: "key_loads (fst (process_files w lib output_folder reconstructed_folder any_key
                any_id rs)) = []"
    "key_scans (fst (process_files w lib output_folder reconstructed_folder any_key any_id rs))
       = []"
    by simp_all
  have pre: "\<forall>ev \<in> set ([MakeDirs reconstructed_folder, Rglob response_folder ''*'']
                       @ fst ?infer @ [LoadPrivateKey private_key_path]). \<not> record_event ev"
    using tr by (simp add: ball_Un)
  show ?thesis
  proof (intro conjI impI)
    assume i: "snd ?infer = Inr user_id"
    from ok [OF i] show "\<exists>private_key. pem_private_key w private_key_path = Inr private_key
               \<and> ?run = ([MakeDirs reconstructed_folder, Rglob response_folder ''*'']
                       @ fst ?infer @ [LoadPrivateKey private_key_path]
                       @ fst (process_files w lib output_folder reconstructed_folder
                           private_key user_id (rglob w response_folder ''*'')),
                     snd (process_files w lib output_folder reconstructed_folder
                           private_key user_id (rglob w response_folder ''*'')))" by (rule conjunct1)
    from ok [OF i] show "key_loads (fst ?run) = [private_key_path, private_key_path]"
      by simp
    from ok [OF i] show "key_scans (fst ?run) = [public_keys_folder]" by simp
  next
    assume i: "snd ?infer = Inl e"
    from bad [OF i] show "snd ?run = Inl e" by simp
    from bad [OF i] show "key_loads (fst ?run) = [private_key_path]" by simp
    from bad [OF i] show "written (fst ?run) = []" by simp
  next
    show "key_loads (fst (process_files w lib output_folder reconstructed_folder any_key
                any_id rs)) = []" by (rule loop)
    show "key_scans (fst (process_files w lib output_folder reconstructed_folder any_key
                any_id rs)) = []" by (rule loop)
    show "\<forall>ev \<in> set ([MakeDirs reconstructed_folder, Rglob response_folder ''*'']
                       @ fst ?infer @ [LoadPrivateKey private_key_path]). \<not> record_event ev"
      by (rule pre)
  qed
qed

theorem key_loads_before_records_witness:
  "rglob toy_world ''response'' ''*'' \<noteq> []
   \<and> snd (infer_user_id toy_world ''private_key.pem'' ''public_keys'') = Inr ''alice''
   \<and> key_loads (fst (process_response_files toy_world toy_lib ''response'' ''output''
        ''reconstructed'' ''private_key.pem'' ''public_keys''))
       = [''private_key.pem'', ''private_key.pem'']
   \<and> key_scans (fst (process_response_files toy_world toy_lib ''response'' ''output''
        ''reconstructed'' ''private_key.pem'' ''public_keys'')) = [''public_keys'']
   \<and> snd (infer_user_id toy_world ''carol_key.pem'' ''public_keys'')
       = Inl (Exn ''ValueError'' ''No matching public key found for the provided private key.'')
   \<and> key_loads (fst (process_response_files toy_world toy_lib ''response'' ''output''
        ''reconstructed'' ''carol_key.pem'' ''public_keys'')) = [''carol_key.pem'']"
proof -
  let ?no = "Exn ''ValueError'' ''No matching public key found for the provided private key.''"
  have ne: "rglob toy_world ''response'' ''*'' \<noteq> []"
    by (simp add: toy_world_def)
  have i: "snd (infer_user_id toy_world ''private_key.pem'' ''public_keys'') = Inr ''alice''"
    by (simp add: toy_defs run_defs)
  have j: "snd (infer_user_id toy_world ''carol_key.pem'' ''public_keys'') = Inl ?no"
    by (simp add: toy_defs run_defs)
  note a = key_loads_before_records [OF ne, of "''private_key.pem''" "''public_keys''"
      "''alice''" toy_lib "''output''" "''reconstructed''" ?no alice_key "''alice''" "[]"]
  note b = key_loads_before_records [OF ne, of "''carol_key.pem''" "''public_keys''"
      "''alice''" toy_lib "''output''" "''reconstructed''" ?no alice_key "''alice''" "[]"]
  note ok = a [THEN conjunct1, THEN mp, OF i]
  note bad = b [THEN conjunct2, THEN conjunct1, THEN mp, OF j]
  show ?thesis
    by (intro conjI ne i j ok [THEN conjunct2, THEN conjunct1] ok [THEN conjunct2, THEN conjunct2]
          bad [THEN conjunct2, THEN conjunct1])
qed

text \<open>
  C8. When the response folder has no files, the run creates the output folder, prints
  the single notice \<open>No files found in the '...' folder. Please check your input.\<close>
  and returns without an exception: nothing is written, no private key is loaded and
  no public keys are scanned.
\<close>

theorem empty_input_notice:
  assumes "rglob w response_folder ''*'' = []"
  shows "process_response_files w lib response_folder output_folder reconstructed_folder
           private_key_path public_keys_folder
         = ([MakeDirs reconstructed_folder, Rglob response_folder ''*'',
             Print (''No files found in the '' @ [CHR 0x27] @ response_folder @ [CHR 0x27]
                      @ '' folder. Please check your input.'')],
            Inr ())
     \<and> written (fst (process_response_files w lib response_folder output_folder
           reconstructed_folder private_key_path public_keys_folder)) = []
     \<and> printed (fst (process_response_files w lib response_folder output_folder
           reconstructed_folder private_key_path public_keys_folder))
         = [''No files found in the '' @ [CHR 0x27] @ response_folder @ [CHR 0x27]
              @ '' folder. Please check your input.'']
     \<and> key_loads (fst (process_response_files w lib response_folder output_folder
           reconstructed_folder private_key_path public_keys_folder)) = []
     \<and> key_scans (fst (process_response_files w lib response_folder output_folder
           reconstructed_folder private_key_path public_keys_folder)) = []"
proof -
  have r: "process_response_files w lib response_folder output_folder reconstructed_folder
           private_key_path public_keys_folder
         = ([MakeDirs reconstructed_folder, Rglob response_folder ''*'',
             Print (''No files found in the '' @ [CHR 0x27] @ response_folder @ [CHR 0x27]
                      @ '' folder. Please check your input.'')],
            Inr ())"
    using assms by (simp add: process_response_files_def io_bind_def emit_def Let_def)
  show ?thesis unfolding r by simp
qed

theorem empty_input_notice_witness:
  "rglob toy_world ''empty'' ''*'' = []
   \<and> process_response_files toy_world toy_lib ''empty'' ''output'' ''reconstructed''
        ''private_key.pem'' ''public_keys''
       = ([MakeDirs ''reconstructed'', Rglob ''empty'' ''*'',
           Print (''No files found in the '' @ [CHR 0x27] @ ''empty'' @ [CHR 0x27]
                    @ '' folder. Please check your input.'')],
          Inr ())"
proof -
  have h: "rglob toy_world ''empty'' ''*'' = []"
    by (simp add: toy_world_def)
  note t = empty_input_notice [OF h, of toy_lib "''output''" "''reconstructed''"
      "''private_key.pem''" "''public_keys''"]
  show ?thesis by (intro conjI h t [THEN conjunct1])
qed

end
